theory Spec2Isabelle
  imports Complex_Main
begin

section \<open>JavaScript values of the request body\<close>

text \<open>
  The request body is produced by \<^verbatim>\<open>express.json()\<close> (app.js, line 46), so a field
  holds a JSON value or is absent (\<^verbatim>\<open>undefined\<close>, modelled as \<open>None\<close>). A JSON number
  is a finite double, or an infinity when the literal overflows; JSON has no NaN. A finite
  number is modelled by its exact value, a rational. Strings are lists of 8-bit code
  units.
\<close>

datatype jsnum = Fin rat | PosInf | NegInf

datatype json =
    JNull
  | JBool bool
  | JNum jsnum
  | JStr string
  | JArr "json list"
  | JObj "(string \<times> json) list"

text \<open>\<^verbatim>\<open>n <= 0\<close>, \<^verbatim>\<open>n > 0\<close> and the truthiness of a number.\<close>

fun num_le_zero :: "jsnum \<Rightarrow> bool" where
  "num_le_zero (Fin q) = (q \<le> 0)"
| "num_le_zero PosInf = False"
| "num_le_zero NegInf = True"

fun num_gt_zero :: "jsnum \<Rightarrow> bool" where
  "num_gt_zero (Fin q) = (0 < q)"
| "num_gt_zero PosInf = True"
| "num_gt_zero NegInf = False"

fun num_truthy :: "jsnum \<Rightarrow> bool" where
  "num_truthy (Fin q) = (q \<noteq> 0)"
| "num_truthy PosInf = True"
| "num_truthy NegInf = True"

text \<open>
  The sum of two doubles is the exact sum rounded to the nearest double, ties to the even
  significand (IEEE 754, binary64). In units of \<open>2\<^sup>-\<^sup>1\<^sup>0\<^sup>7\<^sup>4\<close>, the smallest positive double,
  the doubles are the integers \<open>n * 2\<^sup>j\<close> with \<open>n < 2\<^sup>5\<^sup>3\<close>, below \<open>2\<^sup>2\<^sup>0\<^sup>9\<^sup>8\<close>: a magnitude of
  \<open>53 + j\<close> binary digits is rounded to a multiple of \<open>2\<^sup>j\<close>, and a result of \<open>2\<^sup>2\<^sup>0\<^sup>9\<^sup>8\<close>
  units or more is an infinity.
\<close>

fun bitLength :: "nat \<Rightarrow> nat" where
  "bitLength n = (if n = 0 then 0 else Suc (bitLength (n div 2)))"

definition roundHalfEven :: "rat \<Rightarrow> int" where
  "roundHalfEven x =
     (let f = \<lfloor>x\<rfloor>; r = x - of_int f
      in if r < 1 / 2 then f else if 1 / 2 < r then f + 1 else if even f then f else f + 1)"

definition roundDouble :: "rat \<Rightarrow> jsnum" where
  "roundDouble x =
     (let units = \<bar>x\<bar> * 2 ^ 1074;
          j = bitLength (nat \<lfloor>units\<rfloor>) - 53;
          n = roundHalfEven (units / 2 ^ j) * 2 ^ j
      in if 2 ^ 2098 \<le> n then (if x < 0 then NegInf else PosInf)
         else Fin (sgn x * of_int n / 2 ^ 1074))"

text \<open>\<^verbatim>\<open>m + n\<close> for an integer \<open>m\<close> of small magnitude, which is a double, and a number
  \<open>n\<close>.\<close>

fun number_add :: "int \<Rightarrow> jsnum \<Rightarrow> jsnum" where
  "number_add m (Fin q) = roundDouble (of_int m + q)"
| "number_add m PosInf = PosInf"
| "number_add m NegInf = NegInf"

text \<open>The truthiness of a value that is absent or a string: \<^verbatim>\<open>undefined\<close> and \<^verbatim>\<open>''\<close> are falsy.\<close>

fun str_truthy :: "string option \<Rightarrow> bool" where
  "str_truthy None = False"
| "str_truthy (Some s) = (s \<noteq> [])"

section \<open>Characters, trimming and the regular expressions of the source\<close>

text \<open>\<^verbatim>\<open>\s\<close> on 8-bit code units: tab, line feed, vertical tab, form feed, carriage return,
  space and no-break space.\<close>

definition js_space :: "char \<Rightarrow> bool" where
  "js_space c = (c \<in> set [CHR 0x09, CHR 0x0A, CHR 0x0B, CHR 0x0C, CHR 0x0D, CHR 0x20, CHR 0xA0])"

text \<open>The characters the regular expression dot does not match.\<close>

definition line_terminator :: "char \<Rightarrow> bool" where
  "line_terminator c = (c \<in> set [CHR 0x0A, CHR 0x0D])"

text \<open>\<^verbatim>\<open>String.prototype.trim\<close>, which the schema option \<^verbatim>\<open>trim: true\<close> applies.\<close>

definition js_trim :: "string \<Rightarrow> string" where
  "js_trim s = rev (dropWhile js_space (rev (dropWhile js_space s)))"

definition is_digit :: "char \<Rightarrow> bool" where
  "is_digit c = (48 \<le> (of_char c :: nat) \<and> (of_char c :: nat) \<le> 57)"

definition is_upper :: "char \<Rightarrow> bool" where
  "is_upper c = (65 \<le> (of_char c :: nat) \<and> (of_char c :: nat) \<le> 90)"

definition is_lower :: "char \<Rightarrow> bool" where
  "is_lower c = (97 \<le> (of_char c :: nat) \<and> (of_char c :: nat) \<le> 122)"

text \<open>The class \<^verbatim>\<open>[a-zA-Z0-9]\<close>.\<close>

definition is_alnum :: "char \<Rightarrow> bool" where
  "is_alnum c = (is_lower c \<or> is_upper c \<or> is_digit c)"

definition to_lower :: "char \<Rightarrow> char" where
  "to_lower c = (if is_upper c then char_of ((of_char c :: nat) + 32) else c)"

text \<open>\<^verbatim>\<open>/^[a-zA-Z0-9]{5,10}$/.test(code)\<close> (urlController.js, line 65).\<close>

definition customCodeFormat :: "string \<Rightarrow> bool" where
  "customCodeFormat code = (5 \<le> length code \<and> length code \<le> 10 \<and> list_all is_alnum code)"

text \<open>Matching a lower-case literal at the start of a string under the flag \<^verbatim>\<open>i\<close>; the
  result is the rest of the string.\<close>

fun ci_prefix :: "string \<Rightarrow> string \<Rightarrow> string option" where
  "ci_prefix [] s = Some s"
| "ci_prefix (p # ps) [] = None"
| "ci_prefix (p # ps) (c # cs) = (if to_lower c = p then ci_prefix ps cs else None)"

text \<open>\<^verbatim>\<open>^(https?|ftp):\/\/\<close>: the three literals exclude one another.\<close>

definition schemeRest :: "string \<Rightarrow> string option" where
  "schemeRest s =
     (case ci_prefix ''https://'' s of
        Some r \<Rightarrow> Some r
      | None \<Rightarrow>
          (case ci_prefix ''http://'' s of
             Some r \<Rightarrow> Some r
           | None \<Rightarrow> ci_prefix ''ftp://'' s))"

text \<open>The schema's \<^verbatim>\<open>match: /^(https?|ftp):\/\/[^\s/$.?#].[^\s]*$/i\<close> (models/url.js,
  line 12).\<close>

definition urlPatternMatch :: "string \<Rightarrow> bool" where
  "urlPatternMatch s =
     (case schemeRest s of
        None \<Rightarrow> False
      | Some r \<Rightarrow>
          (case r of
             c1 # c2 # cs \<Rightarrow>
               \<not> js_space c1 \<and> c1 \<notin> set ''/$.?#'' \<and> \<not> line_terminator c2 \<and>
               list_all (\<lambda>c. \<not> js_space c) cs
           | _ \<Rightarrow> False))"

section \<open>Dates\<close>

text \<open>
  A \<^verbatim>\<open>Date\<close> holds a time value in milliseconds, or NaN (an invalid date). The
  functions below are those of the ECMAScript specification that
  \<^verbatim>\<open>getMinutes\<close> and \<^verbatim>\<open>setMinutes\<close> are made of, on integers. The local time zone is a
  function \<open>z\<close>, the \<^verbatim>\<open>LocalTZA\<close> of that specification: \<open>z t True\<close> is the offset from UTC,
  in milliseconds, in force at the time \<open>t\<close>, and \<open>z t False\<close> is the offset by which the
  local time \<open>t\<close> is read back as UTC. The two differ across a change of offset such as a
  change to or from summer time. The sums and products of \<^verbatim>\<open>MakeTime\<close> and \<^verbatim>\<open>MakeDate\<close>
  are those of integers, which are those of doubles for every date that \<^verbatim>\<open>TimeClip\<close>
  accepts when the clock is after 1970.
\<close>

datatype jsdate = Date int | InvalidDate

definition msPerMinute :: int where "msPerMinute = 60000"
definition msPerHour :: int where "msPerHour = 3600000"
definition msPerDay :: int where "msPerDay = 86400000"

definition Day :: "int \<Rightarrow> int" where
  "Day t = t div msPerDay"

definition HourFromTime :: "int \<Rightarrow> int" where
  "HourFromTime t = (t div msPerHour) mod 24"

definition MinFromTime :: "int \<Rightarrow> int" where
  "MinFromTime t = (t div msPerMinute) mod 60"

definition SecFromTime :: "int \<Rightarrow> int" where
  "SecFromTime t = (t div 1000) mod 60"

definition msFromTime :: "int \<Rightarrow> int" where
  "msFromTime t = t mod 1000"

text \<open>\<^verbatim>\<open>ToIntegerOrInfinity\<close> on a finite number: truncation towards zero.\<close>

definition toInteger :: "rat \<Rightarrow> int" where
  "toInteger q = (if 0 \<le> q then \<lfloor>q\<rfloor> else \<lceil>q\<rceil>)"

definition MakeTime :: "int \<Rightarrow> int \<Rightarrow> int \<Rightarrow> int \<Rightarrow> int" where
  "MakeTime h m s milli = h * msPerHour + m * msPerMinute + s * 1000 + milli"

definition MakeDate :: "int \<Rightarrow> int \<Rightarrow> int" where
  "MakeDate day time = day * msPerDay + time"

definition TimeClip :: "int \<Rightarrow> jsdate" where
  "TimeClip t = (if \<bar>t\<bar> > 8640000000000000 then InvalidDate else Date t)"

type_synonym zone = "int \<Rightarrow> bool \<Rightarrow> int"

definition LocalTime :: "zone \<Rightarrow> int \<Rightarrow> int" where
  "LocalTime z t = t + z t True"

definition UTC :: "zone \<Rightarrow> int \<Rightarrow> int" where
  "UTC z t = t - z t False"

definition getMinutes :: "zone \<Rightarrow> int \<Rightarrow> int" where
  "getMinutes z t = MinFromTime (LocalTime z t)"

fun setMinutes :: "zone \<Rightarrow> int \<Rightarrow> jsnum \<Rightarrow> jsdate" where
  "setMinutes z t (Fin q) =
     (let lt = LocalTime z t;
          date = MakeDate (Day lt)
                   (MakeTime (HourFromTime lt) (toInteger q) (SecFromTime lt) (msFromTime lt))
      in TimeClip (UTC z date))"
| "setMinutes z t PosInf = InvalidDate"
| "setMinutes z t NegInf = InvalidDate"

section \<open>The data model (models/url.js)\<close>

text \<open>Timestamps are time values in milliseconds; \<open>expiresAt = None\<close> is \<^verbatim>\<open>null\<close>.\<close>

record click_event =
  timestamp :: int
  source :: string
  location :: string

record url_doc =
  originalUrl :: string
  shortCode :: string
  createdAt :: int
  expiresAt :: "int option"
  clicks :: nat
  clickHistory :: "click_event list"

text \<open>The collection, in insertion order.\<close>

type_synonym repo = "url_doc list"

text \<open>\<^verbatim>\<open>Url.findOne({ shortCode: code })\<close>: the first document whose code is the query's,
  which is cast with the schema's setter \<^verbatim>\<open>trim\<close>.\<close>

definition findOne :: "repo \<Rightarrow> string \<Rightarrow> url_doc option" where
  "findOne db code = find (\<lambda>d. shortCode d = js_trim code) db"

section \<open>Creating a short URL (urlController.js, lines 19 to 119)\<close>

datatype create_error =
    MissingUrl
  | InvalidUrl
  | InvalidValidity
  | CodeConflict
  | CodeFormatInvalid
  | GenerationExhausted
  | ValidationFailed
  | ServerError

text \<open>The status code each failure is sent with.\<close>

fun create_status :: "create_error \<Rightarrow> nat" where
  "create_status MissingUrl = 400"
| "create_status InvalidUrl = 400"
| "create_status InvalidValidity = 400"
| "create_status CodeConflict = 409"
| "create_status CodeFormatInvalid = 400"
| "create_status GenerationExhausted = 500"
| "create_status ValidationFailed = 400"
| "create_status ServerError = 500"

text \<open>
  What a request reads from outside the repository: whether \<^verbatim>\<open>new URL(url)\<close> accepts a
  string (\<^verbatim>\<open>isValidUrl\<close>, lines 9 to 16), the results of the successive calls of
  \<^verbatim>\<open>nanoid(5)\<close>, the local time zone of the server, and the clock as read by
  \<^verbatim>\<open>calculateExpiry\<close>, by the default of \<^verbatim>\<open>createdAt\<close> and by the validator of
  \<^verbatim>\<open>expiresAt\<close>.
\<close>

record env =
  isValidUrl :: "string \<Rightarrow> bool"
  nanoid :: "nat \<Rightarrow> string"
  localTZA :: zone
  nowExpiry :: int
  nowCreated :: int
  nowValidate :: int

text \<open>The fields of the body that the handler reads: \<^verbatim>\<open>url\<close> and \<^verbatim>\<open>shortcode\<close>, absent or
  a string, and \<^verbatim>\<open>validity\<close>, absent or any JSON value.\<close>

record create_req =
  url :: "string option"
  validity :: "json option"
  shortcode :: "string option"

text \<open>The body of the 201 response; \<open>expiry\<close> stands for the ISO 8601 string of the date.\<close>

record created_view =
  cv_shortCode :: string
  cv_originalUrl :: string
  cv_expiry :: "int option"

text \<open>\<^verbatim>\<open>calculateExpiry\<close> (lines 19 to 26); \<open>None\<close> as argument is \<^verbatim>\<open>undefined\<close> or
  \<^verbatim>\<open>null\<close>, \<open>None\<close> as result is \<^verbatim>\<open>null\<close>.\<close>

definition calculateExpiry :: "zone \<Rightarrow> int \<Rightarrow> jsnum option \<Rightarrow> jsdate option" where
  "calculateExpiry z now validityMinutes =
     (case validityMinutes of
        None \<Rightarrow> None
      | Some n \<Rightarrow>
          if num_truthy n \<and> num_gt_zero n
          then Some (setMinutes z now (number_add (getMinutes z now) n))
          else None)"

text \<open>The test of line 48:
  \<^verbatim>\<open>validity !== undefined && (typeof validity !== 'number' || validity <= 0)\<close>.\<close>

fun validityRejected :: "json option \<Rightarrow> bool" where
  "validityRejected None = False"
| "validityRejected (Some (JNum n)) = num_le_zero n"
| "validityRejected (Some v) = True"

text \<open>\<^verbatim>\<open>validity || 30\<close> (line 91). At that line \<^verbatim>\<open>validity\<close> is \<^verbatim>\<open>undefined\<close> or a
  number: line 48 has returned for every other value.\<close>

fun validityOr30 :: "json option \<Rightarrow> jsnum" where
  "validityOr30 (Some (JNum n)) = (if num_truthy n then n else Fin 30)"
| "validityOr30 v = Fin 30"

definition MAX_ATTEMPTS :: nat where
  "MAX_ATTEMPTS = 5"

text \<open>The loop of lines 75 to 82; the state is \<^verbatim>\<open>shortCodeToUse\<close>,
  \<^verbatim>\<open>uniqueCodeFound\<close> and \<^verbatim>\<open>attempts\<close>.\<close>

function generateLoop ::
  "(nat \<Rightarrow> string) \<Rightarrow> repo \<Rightarrow> string option \<Rightarrow> bool \<Rightarrow> nat \<Rightarrow> string option \<times> bool \<times> nat" where
  "generateLoop gen db shortCodeToUse uniqueCodeFound attempts =
     (if \<not> uniqueCodeFound \<and> attempts < MAX_ATTEMPTS
      then (let candidate = gen attempts;
                found = (if findOne db candidate = None then True else uniqueCodeFound)
            in generateLoop gen db (Some candidate) found (attempts + 1))
      else (shortCodeToUse, uniqueCodeFound, attempts))"
  by pat_completeness auto
termination
  by (relation "measure (\<lambda>(gen, db, code, found, attempts). MAX_ATTEMPTS - attempts)") auto

text \<open>Lines 54 to 88: the code to use, or the failure sent.\<close>

definition chooseCode :: "env \<Rightarrow> repo \<Rightarrow> string option \<Rightarrow> create_error + string option" where
  "chooseCode e db customShortCode =
     (if str_truthy customShortCode
      then (case customShortCode of
              None \<Rightarrow> Inr None
            | Some code \<Rightarrow>
                if findOne db code \<noteq> None then Inl CodeConflict
                else if \<not> customCodeFormat code then Inl CodeFormatInvalid
                else Inr (Some code))
      else (case generateLoop (nanoid e) db customShortCode False 0 of
              (shortCodeToUse, uniqueCodeFound, attempts) \<Rightarrow>
                if \<not> uniqueCodeFound then Inl GenerationExhausted
                else Inr shortCodeToUse))"

text \<open>
  \<^verbatim>\<open>new Url({...})\<close> and \<^verbatim>\<open>save()\<close> against the schema: the setters trim both
  strings, \<^verbatim>\<open>createdAt\<close>, \<^verbatim>\<open>clicks\<close> and \<^verbatim>\<open>clickHistory\<close> take their defaults, the
  validators run (a failure is a \<^verbatim>\<open>ValidationError\<close>, sent as 400), and the unique index
  on \<^verbatim>\<open>shortCode\<close> refuses a duplicate (another error, sent as 500).
\<close>

definition originalUrlValid :: "string \<Rightarrow> bool" where
  "originalUrlValid v = (v \<noteq> [] \<and> urlPatternMatch v)"

definition shortCodeValid :: "string option \<Rightarrow> bool" where
  "shortCodeValid v =
     (case v of None \<Rightarrow> False | Some c \<Rightarrow> c \<noteq> [] \<and> 5 \<le> length c \<and> length c \<le> 10)"

text \<open>An invalid date fails the cast; the validator of lines 33 to 38 is
  \<^verbatim>\<open>v === null || v > Date.now()\<close>.\<close>

fun expiresAtValid :: "int \<Rightarrow> jsdate option \<Rightarrow> bool" where
  "expiresAtValid now None = True"
| "expiresAtValid now (Some InvalidDate) = False"
| "expiresAtValid now (Some (Date v)) = (v > now)"

fun dateValue :: "jsdate option \<Rightarrow> int option" where
  "dateValue (Some (Date v)) = Some v"
| "dateValue d = None"

definition saveNew :: "env \<Rightarrow> repo \<Rightarrow> string \<Rightarrow> string option \<Rightarrow> jsdate option \<Rightarrow> create_error + url_doc" where
  "saveNew e db ou code ex =
     (let ou' = js_trim ou; code' = map_option js_trim code in
      if \<not> (originalUrlValid ou' \<and> shortCodeValid code' \<and> expiresAtValid (nowValidate e) ex)
      then Inl ValidationFailed
      else (case code' of
              None \<Rightarrow> Inl ValidationFailed
            | Some c \<Rightarrow>
                if \<exists>d \<in> set db. shortCode d = c then Inl ServerError
                else Inr \<lparr> originalUrl = ou', shortCode = c, createdAt = nowCreated e,
                           expiresAt = dateValue ex, clicks = 0, clickHistory = [] \<rparr>))"

text \<open>\<^verbatim>\<open>createShortUrl\<close> (lines 33 to 119): the response and the collection after it.\<close>

definition createShortUrl :: "env \<Rightarrow> repo \<Rightarrow> create_req \<Rightarrow> (create_error + created_view) \<times> repo" where
  "createShortUrl e db req =
     (case url req of
        None \<Rightarrow> (Inl MissingUrl, db)
      | Some ou \<Rightarrow>
          if ou = [] then (Inl MissingUrl, db)
          else if \<not> isValidUrl e ou then (Inl InvalidUrl, db)
          else if validityRejected (validity req) then (Inl InvalidValidity, db)
          else (case chooseCode e db (shortcode req) of
                  Inl err \<Rightarrow> (Inl err, db)
                | Inr shortCodeToUse \<Rightarrow>
                    (let ex = calculateExpiry (localTZA e) (nowExpiry e)
                                (Some (validityOr30 (validity req)))
                     in case saveNew e db ou shortCodeToUse ex of
                          Inl err \<Rightarrow> (Inl err, db)
                        | Inr savedUrl \<Rightarrow>
                            (Inr \<lparr> cv_shortCode = shortCode savedUrl,
                                   cv_originalUrl = originalUrl savedUrl,
                                   cv_expiry = expiresAt savedUrl \<rparr>,
                             db @ [savedUrl]))))"

section \<open>Statistics, redirection and the list (urlController.js, lines 126 to 234)\<close>

text \<open>The failures of the two handlers that look a code up: 404, 410 and, for an error
  thrown by \<^verbatim>\<open>save\<close>, the 500 of lines 204 to 206.\<close>

datatype lookup_error = NotFound | Gone | SaveFailed

text \<open>The test of lines 140 and 187:
  \<^verbatim>\<open>urlEntry.expiresAt && urlEntry.expiresAt < new Date()\<close>.\<close>

definition pastExpiry :: "int \<Rightarrow> url_doc \<Rightarrow> bool" where
  "pastExpiry now d = (case expiresAt d of None \<Rightarrow> False | Some ex \<Rightarrow> ex < now)"

record stats_view =
  st_shortCode :: string
  st_originalUrl :: string
  st_createdAt :: int
  st_expiresAt :: "int option"
  st_totalClicks :: nat
  st_clickHistory :: "click_event list"

text \<open>\<^verbatim>\<open>getShortUrlStats\<close> (lines 126 to 167); it writes nothing.\<close>

definition getShortUrlStats :: "int \<Rightarrow> repo \<Rightarrow> string \<Rightarrow> lookup_error + stats_view" where
  "getShortUrlStats now db code =
     (case findOne db code of
        None \<Rightarrow> Inl NotFound
      | Some urlEntry \<Rightarrow>
          if pastExpiry now urlEntry then Inl Gone
          else Inr \<lparr> st_shortCode = shortCode urlEntry,
                     st_originalUrl = originalUrl urlEntry,
                     st_createdAt = createdAt urlEntry,
                     st_expiresAt = expiresAt urlEntry,
                     st_totalClicks = clicks urlEntry,
                     st_clickHistory = clickHistory urlEntry \<rparr>)"

text \<open>The request of a redirection: the code of the path, the two headers read (absent
  is \<open>None\<close>) and \<^verbatim>\<open>req.ip\<close>.\<close>

record redirect_req =
  rq_shortCode :: string
  referer :: "string option"
  userAgent :: "string option"
  ip :: string

text \<open>\<^verbatim>\<open>req.headers['referer'] || req.headers['user-agent'] || 'Direct/Unknown'\<close>
  (line 196).\<close>

definition clickSource :: "redirect_req \<Rightarrow> string" where
  "clickSource rq =
     (if str_truthy (referer rq) then (case referer rq of Some r \<Rightarrow> r | None \<Rightarrow> [])
      else if str_truthy (userAgent rq) then (case userAgent rq of Some u \<Rightarrow> u | None \<Rightarrow> [])
      else ''Direct/Unknown'')"

text \<open>Lines 193 to 198 on the copy of the document that was loaded.\<close>

definition recordClick :: "int \<Rightarrow> redirect_req \<Rightarrow> url_doc \<Rightarrow> url_doc" where
  "recordClick now rq d =
     d \<lparr> clicks := clicks d + 1,
         clickHistory := clickHistory d @
           [\<lparr> timestamp = now, source = clickSource rq, location = ip rq \<rparr>] \<rparr>"

text \<open>
  The handler runs in two parts, with an \<^verbatim>\<open>await\<close> between them. The first, lines 180
  to 190, loads the document and tests its expiry.
\<close>

definition redirectLoad :: "int \<Rightarrow> repo \<Rightarrow> string \<Rightarrow> lookup_error + url_doc" where
  "redirectLoad nowCheck db code =
     (case findOne db code of
        None \<Rightarrow> Inl NotFound
      | Some urlEntry \<Rightarrow> if pastExpiry nowCheck urlEntry then Inl Gone else Inr urlEntry)"

text \<open>
  \<^verbatim>\<open>save()\<close> on a document that was loaded validates every path of the copy in memory
  against the schema: the pattern of \<^verbatim>\<open>originalUrl\<close>, the length of \<^verbatim>\<open>shortCode\<close> and
  the validator of \<^verbatim>\<open>expiresAt\<close>, \<^verbatim>\<open>v === null || v > Date.now()\<close>, at the time of the
  save.
\<close>

definition docValid :: "int \<Rightarrow> url_doc \<Rightarrow> bool" where
  "docValid now d =
     (originalUrlValid (originalUrl d) \<and> shortCodeValid (Some (shortCode d)) \<and>
      (case expiresAt d of None \<Rightarrow> True | Some ex \<Rightarrow> ex > now))"

text \<open>The write is made on the first document with the code of the copy: while a
  document is stored, the unique index makes its code its own.\<close>

fun saveEntry :: "string \<Rightarrow> (url_doc \<Rightarrow> url_doc) \<Rightarrow> repo \<Rightarrow> repo" where
  "saveEntry c f [] = []"
| "saveEntry c f (d # ds) = (if shortCode d = c then f d # ds else d # saveEntry c f ds)"

text \<open>
  The second part, lines 193 to 202, changes the copy in memory and saves it. A copy that
  fails the validation, or whose document is no longer stored, makes \<^verbatim>\<open>save\<close> throw.
  Otherwise the stored document is updated with what changed in the copy: \<^verbatim>\<open>clicks\<close> is
  set to the value of the copy, and the new event is pushed at the end of the stored
  \<^verbatim>\<open>clickHistory\<close>. The result is the target of the redirection.
\<close>

definition redirectSave ::
  "int \<Rightarrow> int \<Rightarrow> repo \<Rightarrow> redirect_req \<Rightarrow> url_doc \<Rightarrow> (lookup_error + string) \<times> repo" where
  "redirectSave nowClick nowSave db rq urlEntry =
     (let changed = recordClick nowClick rq urlEntry in
      if \<not> docValid nowSave changed then (Inl SaveFailed, db)
      else if shortCode changed \<notin> shortCode ` set db then (Inl SaveFailed, db)
      else (Inr (originalUrl changed),
            saveEntry (shortCode changed)
              (\<lambda>d. d \<lparr> clicks := clicks changed,
                        clickHistory := clickHistory d @
                          [\<lparr> timestamp = nowClick, source = clickSource rq,
                             location = ip rq \<rparr>] \<rparr>)
              db))"

text \<open>\<^verbatim>\<open>redirectToOriginal\<close> (lines 175 to 208) when no other request comes between its
  two parts. The clock is read for the test of expiry, for the click and by the
  validator at the save.\<close>

definition redirectToOriginal ::
  "int \<Rightarrow> int \<Rightarrow> int \<Rightarrow> repo \<Rightarrow> redirect_req \<Rightarrow> (lookup_error + string) \<times> repo" where
  "redirectToOriginal nowCheck nowClick nowSave db rq =
     (case redirectLoad nowCheck db (rq_shortCode rq) of
        Inl err \<Rightarrow> (Inl err, db)
      | Inr urlEntry \<Rightarrow> redirectSave nowClick nowSave db rq urlEntry)"

record summary_view =
  sv_shortCode :: string
  sv_originalUrl :: string
  sv_createdAt :: int
  sv_expiresAt :: "int option"
  sv_totalClicks :: nat

definition summary :: "url_doc \<Rightarrow> summary_view" where
  "summary d = \<lparr> sv_shortCode = shortCode d, sv_originalUrl = originalUrl d,
                 sv_createdAt = createdAt d, sv_expiresAt = expiresAt d,
                 sv_totalClicks = clicks d \<rparr>"

text \<open>\<^verbatim>\<open>getAllShortUrls\<close> (lines 217 to 234): \<^verbatim>\<open>Url.find({}, ...)\<close> returns every
  document of the collection.\<close>

definition getAllShortUrls :: "repo \<Rightarrow> summary_view list" where
  "getAllShortUrls db = map summary db"

text \<open>The index of models/url.js, line 57 (\<^verbatim>\<open>expireAfterSeconds: 0\<close>): the database
  deletes, in the background, the documents whose \<^verbatim>\<open>expiresAt\<close> has been reached.\<close>

definition ttlSweep :: "int \<Rightarrow> repo \<Rightarrow> repo" where
  "ttlSweep now db = filter (\<lambda>d. case expiresAt d of None \<Rightarrow> True | Some ex \<Rightarrow> now < ex) db"

section \<open>The service as a state machine\<close>

text \<open>
  Every way the collection changes or is read: the four handlers and the sweep of the
  index. A redirection is either one step, or its second part alone, on a copy that its
  first part loaded before other requests were served: the sequences of steps cover the
  interleavings of redirections with the other requests. The check and the insertion of
  a Create are one step, and the unique index is tested at the insertion. A failure of
  the database itself is not modelled.
\<close>

datatype request =
    Create env create_req
  | GetStats int string
  | Redirect int int int redirect_req
  | RedirectSave int int redirect_req url_doc
  | ListAll
  | Sweep int

fun step :: "repo \<Rightarrow> request \<Rightarrow> repo" where
  "step db (Create e req) = snd (createShortUrl e db req)"
| "step db (GetStats now code) = db"
| "step db (Redirect nowCheck nowClick nowSave rq) =
     snd (redirectToOriginal nowCheck nowClick nowSave db rq)"
| "step db (RedirectSave nowClick nowSave rq urlEntry) =
     snd (redirectSave nowClick nowSave db rq urlEntry)"
| "step db ListAll = db"
| "step db (Sweep now) = ttlSweep now db"

text \<open>The collection after a sequence of requests, from the empty one.\<close>

definition run :: "request list \<Rightarrow> repo" where
  "run rs = foldl step [] rs"

section \<open>The generator of codes\<close>

text \<open>
  \<^verbatim>\<open>nanoid\<close> is the package required at line 3 of urlController.js (version 3). Called
  with a size and no alphabet, it returns that many symbols of its URL alphabet, the 64
  symbols below: the letters, the digits, the underscore and the hyphen.
\<close>

definition urlAlphabet :: string where
  "urlAlphabet = ''useandom-26T198340PX75pxJACKVERYMINDBUSHWOLF_GQZbfghjklqvwyzrict''"

definition nanoidResult :: "nat \<Rightarrow> string \<Rightarrow> bool" where
  "nanoidResult n s = (length s = n \<and> list_all (\<lambda>c. c \<in> set urlAlphabet) s)"

section \<open>Sample requests\<close>

text \<open>A server in a zone that is always five and a half hours east of Greenwich, whose
  generator returns the same code at every call, and a request for a link with no
  validity and no code.\<close>

definition sampleEnv :: env where
  "sampleEnv = \<lparr> isValidUrl = (\<lambda>s. s \<in> set [''https://example.com/a'', ''mailto:someone@example.com'']),
                  nanoid = (\<lambda>i. ''aB3xZ''), localTZA = (\<lambda>t isUTC. 19800000),
                  nowExpiry = 1000000, nowCreated = 1000001, nowValidate = 1000002 \<rparr>"

definition sampleReq :: create_req where
  "sampleReq = \<lparr> url = Some ''https://example.com/a'', validity = None, shortcode = None \<rparr>"

definition sampleVisit :: redirect_req where
  "sampleVisit = \<lparr> rq_shortCode = ''aB3xZ'', referer = None, userAgent = Some ''curl/8.0'',
                    ip = ''203.0.113.9'' \<rparr>"

text \<open>A generator whose first code is taken and whose second is free, and the
  document that the sample request creates.\<close>

definition retryEnv :: env where
  "retryEnv = sampleEnv \<lparr> nanoid := (\<lambda>i. if i = 0 then ''aB3xZ'' else ''Q_-7k'') \<rparr>"

definition sampleDoc :: url_doc where
  "sampleDoc = \<lparr> originalUrl = ''https://example.com/a'', shortCode = ''aB3xZ'',
                  createdAt = 1000001, expiresAt = Some 2800000, clicks = 0,
                  clickHistory = [] \<rparr>"


definition twoMinuteReq :: create_req where
  "twoMinuteReq = sampleReq \<lparr> validity := Some (JNum (Fin 2)) \<rparr>"

text \<open>A generator that returns a code with an underscore, and the sample request with
  that code, with a code too short and with a well-formed code as custom codes.\<close>

definition underscoreEnv :: env where
  "underscoreEnv = sampleEnv \<lparr> nanoid := (\<lambda>i. ''ab_cd'') \<rparr>"

definition underscoreReq :: create_req where
  "underscoreReq = sampleReq \<lparr> shortcode := Some ''ab_cd'' \<rparr>"

definition shortCodeReq :: create_req where
  "shortCodeReq = sampleReq \<lparr> shortcode := Some ''ab'' \<rparr>"

definition takenCodeReq :: create_req where
  "takenCodeReq = sampleReq \<lparr> shortcode := Some ''aB3xZ'' \<rparr>"

text \<open>The sample server an hour later, when the sample document has expired and the
  index has deleted it.\<close>

definition laterEnv :: env where
  "laterEnv = sampleEnv \<lparr> nowExpiry := 4600000, nowCreated := 4600001, nowValidate := 4600002 \<rparr>"

text \<open>Requests with a validity of zero, with the URL and without it, and with a validity
  that is a string.\<close>

definition zeroValidityReq :: create_req where
  "zeroValidityReq = sampleReq \<lparr> validity := Some (JNum (Fin 0)) \<rparr>"

definition noUrlReq :: create_req where
  "noUrlReq = zeroValidityReq \<lparr> url := None \<rparr>"

definition stringValidityReq :: create_req where
  "stringValidityReq = sampleReq \<lparr> validity := Some (JStr ''10'') \<rparr>"

text \<open>The sample visit with a referrer, and with a referrer header whose value is
  empty.\<close>

definition referredVisit :: redirect_req where
  "referredVisit = sampleVisit \<lparr> referer := Some ''https://news.example/'' \<rparr>"

definition emptyRefererVisit :: redirect_req where
  "emptyRefererVisit = sampleVisit \<lparr> referer := Some [] \<rparr>"

text \<open>The document that a request for two minutes creates after the sample one, when
  the first code generated is taken.\<close>

definition briefDoc :: url_doc where
  "briefDoc = sampleDoc \<lparr> shortCode := ''Q_-7k'', expiresAt := Some 1120000 \<rparr>"

text \<open>The sample request with a URL of another scheme, which \<^verbatim>\<open>new URL\<close> accepts.\<close>

definition mailtoReq :: create_req where
  "mailtoReq = sampleReq \<lparr> url := Some ''mailto:someone@example.com'' \<rparr>"

text \<open>The sample request with a space before the URL, on a server whose \<^verbatim>\<open>new URL\<close>
  accepts that string: the parser strips the spaces around its input.\<close>

definition spacedEnv :: env where
  "spacedEnv = sampleEnv \<lparr> isValidUrl := (\<lambda>s. s = '' https://example.com/a'') \<rparr>"

definition spacedReq :: create_req where
  "spacedReq = sampleReq \<lparr> url := Some '' https://example.com/a'' \<rparr>"



text \<open>The request with a validity of zero and a string that is not a URL.\<close>

definition badUrlReq :: create_req where
  "badUrlReq = zeroValidityReq \<lparr> url := Some ''not-a-url'' \<rparr>"

text \<open>The requests that are served in one step.\<close>

fun unbroken :: "request \<Rightarrow> bool" where
  "unbroken (RedirectSave nowClick nowSave rq urlEntry) = False"
| "unbroken r = True"

text \<open>The sample document after two visits that both loaded it before either was
  saved.\<close>

definition racedDoc :: url_doc where
  "racedDoc = sampleDoc \<lparr> clicks := 1, clickHistory :=
     [\<lparr> timestamp = 1500002, source = ''curl/8.0'', location = ''203.0.113.9'' \<rparr>,
      \<lparr> timestamp = 1500003, source = ''https://news.example/'',
         location = ''203.0.113.9'' \<rparr>] \<rparr>"

section \<open>Properties\<close>

subsection \<open>Auxiliary facts\<close>

lemma num_le_zero_iff: "num_le_zero n = (\<not> num_gt_zero n)"
  by (cases n) auto

text \<open>A double of at most 53 binary digits, scaled by a power of two, is its own
  rounding: so is every integer below \<open>2\<^sup>5\<^sup>3\<close> in magnitude.\<close>

declare bitLength.simps [simp del]

lemma bitLength_0: "bitLength 0 = 0"
  by (simp add: bitLength.simps)

lemma bitLength_double: "0 < a \<Longrightarrow> bitLength (2 * a) = Suc (bitLength a)"
  by (subst bitLength.simps) simp

lemma bitLength_shift: "0 < a \<Longrightarrow> bitLength (a * 2 ^ n) = bitLength a + n"
proof (induction n)
  case 0
  then show ?case by simp
next
  case (Suc n)
  then have "bitLength (2 * (a * 2 ^ n)) = Suc (bitLength (a * 2 ^ n))"
    by (intro bitLength_double) simp
  with Suc show ?case by (simp add: mult.commute mult.left_commute)
qed

lemma bitLength_bound: "a < 2 ^ n \<Longrightarrow> bitLength a \<le> n"
proof (induction n arbitrary: a)
  case 0
  then show ?case by (simp add: bitLength_0)
next
  case (Suc n)
  show ?case
  proof (cases "a = 0")
    case True
    then show ?thesis by (simp add: bitLength_0)
  next
    case False
    from Suc.prems have "a div 2 < 2 ^ n" by simp
    then have "bitLength (a div 2) \<le> n" by (rule Suc.IH)
    with False show ?thesis by (subst bitLength.simps) simp
  qed
qed

lemma roundHalfEven_int: "roundHalfEven (of_int z) = z"
  by (simp add: roundHalfEven_def)

lemma round_core:
  fixes x :: rat
  assumes i: "\<bar>i\<bar> < 2 ^ 53" and k: "k \<le> E" and M: "53 + E \<le> M" and x: "x = of_int i / 2 ^ k"
  shows "(let units = \<bar>x\<bar> * 2 ^ E;
              j = bitLength (nat \<lfloor>units\<rfloor>) - 53;
              n = roundHalfEven (units / 2 ^ j) * 2 ^ j
          in if 2 ^ M \<le> n then (if x < 0 then NegInf else PosInf)
             else Fin (sgn x * of_int n / 2 ^ E)) = Fin x"
proof (cases "i = 0")
  case True
  then show ?thesis
    using x by (simp add: bitLength_0 roundHalfEven_def)
next
  case False
  define a where "a = nat \<bar>i\<bar>"
  define e where "e = E - k"
  define j where "j = bitLength a + e - 53"
  have a0: "0 < a" and a53: "a < 2 ^ 53" and ia: "\<bar>i\<bar> = int a"
    using False i by (auto simp: a_def nat_less_iff)
  have b: "bitLength a \<le> 53" using a53 by (rule bitLength_bound)
  have je: "j \<le> e" using b by (simp add: j_def)
  have pk: "(2::rat) ^ E = 2 ^ k * 2 ^ e"
    using k by (simp add: e_def flip: power_add)
  have units: "\<bar>x\<bar> * 2 ^ E = (of_nat (a * 2 ^ e) :: rat)"
  proof -
    have "\<bar>of_int i / 2 ^ k\<bar> = (of_nat a :: rat) / 2 ^ k"
      using ia by (simp add: abs_divide flip: of_int_abs)
    then show ?thesis by (simp add: pk x)
  qed
  have fl: "nat \<lfloor>(of_nat (a * 2 ^ e) :: rat)\<rfloor> = a * 2 ^ e"
    by (metis floor_of_nat nat_int)
  have bl: "bitLength (a * 2 ^ e) - 53 = j"
    using a0 by (simp add: bitLength_shift j_def)
  have pe: "(2::nat) ^ e = 2 ^ (e - j) * 2 ^ j"
    using je by (simp flip: power_add)
  have quot: "(of_nat (a * 2 ^ e) :: rat) / 2 ^ j = of_int (int (a * 2 ^ (e - j)))"
    by (simp add: pe)
  have n: "roundHalfEven ((of_nat (a * 2 ^ e) :: rat) / 2 ^ j) * 2 ^ j = int (a * 2 ^ e)"
    unfolding quot roundHalfEven_int by (simp add: pe)
  have small: "\<not> (2 ^ M \<le> int (a * 2 ^ e))"
  proof -
    have "a * 2 ^ e < 2 ^ 53 * 2 ^ e"
      using a53 by simp
    also have "\<dots> = 2 ^ (53 + e)" by (simp add: power_add)
    also have "\<dots> \<le> (2::nat) ^ M"
      using M by (intro power_increasing) (simp_all add: e_def)
    finally have "int (a * 2 ^ e) < int (2 ^ M)" by (simp only: of_nat_less_iff)
    then show ?thesis by simp
  qed
  have val: "sgn x * of_int (int (a * 2 ^ e)) / 2 ^ E = x"
  proof -
    have "sgn x = of_int (sgn i)"
      by (simp add: x sgn_if zero_less_divide_iff divide_less_0_iff)
    moreover have "(of_int (sgn i) :: rat) * of_nat a = of_int i"
      using ia by (metis of_int_mult of_int_of_nat_eq sgn_mult_abs)
    ultimately show ?thesis by (simp add: pk x)
  qed
  show ?thesis
    unfolding Let_def units fl bl n
    using small val by simp
qed

lemma roundDouble_dyadic:
  assumes "\<bar>i\<bar> < 2 ^ 53" and "k \<le> 1074"
  shows "roundDouble (of_int i / 2 ^ k) = Fin (of_int i / 2 ^ k)"
  unfolding roundDouble_def
  by (rule round_core[OF assms(1) assms(2) _ refl]) simp

lemma roundDouble_int: "\<bar>i\<bar> < 2 ^ 53 \<Longrightarrow> roundDouble (of_int i) = Fin (of_int i)"
  using roundDouble_dyadic[of i 0] by simp


text \<open>A date is the sum of its day, hour, minute, second and millisecond, so setting the
  minutes to those read plus \<open>q\<close> moves the local date by the whole minutes of \<open>q\<close>.\<close>

lemma time_decomposition:
  "MakeDate (Day t) (MakeTime (HourFromTime t) (MinFromTime t + k) (SecFromTime t) (msFromTime t))
     = t + k * msPerMinute"
proof -
  define a where "a = t div 1000"
  define b where "b = a div 60"
  define c where "c = b div 60"
  define d where "d = c div 24"
  define rt where "rt = t mod 1000"
  define ra where "ra = a mod 60"
  define rb where "rb = b mod 60"
  define rc where "rc = c mod 24"
  have m: "t div msPerMinute = b"
    unfolding msPerMinute_def a_def b_def by (simp add: zdiv_zmult2_eq)
  have h: "t div msPerHour = c"
    unfolding msPerHour_def a_def b_def c_def by (simp add: zdiv_zmult2_eq)
  have dd: "t div msPerDay = d"
    unfolding msPerDay_def a_def b_def c_def d_def by (simp add: zdiv_zmult2_eq)
  have t: "t = 1000 * a + rt"
    unfolding a_def rt_def by simp
  have a: "a = 60 * b + ra"
    unfolding b_def ra_def by simp
  have b: "b = 60 * c + rb"
    unfolding c_def rb_def by simp
  have c: "c = 24 * d + rc"
    unfolding d_def rc_def by simp
  have "MakeDate (Day t) (MakeTime (HourFromTime t) (MinFromTime t + k) (SecFromTime t) (msFromTime t))
      = d * 86400000 + (rc * 3600000 + (rb + k) * 60000 + ra * 1000 + rt)"
    unfolding MakeDate_def MakeTime_def Day_def HourFromTime_def MinFromTime_def SecFromTime_def
      msFromTime_def m h dd rt_def ra_def rb_def rc_def
    by (simp add: a_def msPerDay_def msPerHour_def msPerMinute_def)
  also have "\<dots> = 1000 * (60 * (60 * (24 * d + rc) + rb) + ra) + rt + k * 60000"
    by (simp add: algebra_simps)
  also have "\<dots> = t + k * 60000"
    using t a b c by simp
  finally show ?thesis by (simp add: msPerMinute_def)
qed

lemma MinFromTime_nonneg: "0 \<le> MinFromTime t"
  by (simp add: MinFromTime_def)

lemma toInteger_shift: "0 \<le> m \<Longrightarrow> 0 \<le> q \<Longrightarrow> toInteger (of_int m + q) = m + \<lfloor>q\<rfloor>"
  by (simp add: toInteger_def)

lemma setMinutes_getMinutes:
  assumes "0 \<le> q"
  shows "setMinutes z t (Fin (of_int (getMinutes z t) + q)) =
           TimeClip (UTC z (LocalTime z t + \<lfloor>q\<rfloor> * msPerMinute))"
proof -
  have "toInteger (of_int (MinFromTime (LocalTime z t)) + q) = MinFromTime (LocalTime z t) + \<lfloor>q\<rfloor>"
    using assms MinFromTime_nonneg by (rule toInteger_shift[rotated])
  then show ?thesis
    by (simp add: getMinutes_def Let_def time_decomposition)
qed

text \<open>When the sum of the minutes read and of the validity is a double, the expiry is the
  local time moved by the whole minutes of the validity, read back as UTC.\<close>

lemma calculateExpiry_exact:
  assumes "0 < q"
    and "roundDouble (of_int (getMinutes z now) + q) = Fin (of_int (getMinutes z now) + q)"
  shows "calculateExpiry z now (Some (Fin q)) =
           Some (TimeClip (UTC z (LocalTime z now + \<lfloor>q\<rfloor> * msPerMinute)))"
  using assms setMinutes_getMinutes[of q z now] by (simp add: calculateExpiry_def)

lemma getMinutes_range: "0 \<le> getMinutes z t \<and> getMinutes z t < 60"
  by (simp add: getMinutes_def MinFromTime_def)

lemma calculateExpiry_whole:
  assumes "0 < k" and "k \<le> 144000000000"
  shows "calculateExpiry z now (Some (Fin (of_int k))) =
           Some (TimeClip (UTC z (LocalTime z now + k * msPerMinute)))"
proof -
  have "\<bar>getMinutes z now + k\<bar> < 2 ^ 53"
    using assms getMinutes_range[of z now] by simp
  then have "roundDouble (of_int (getMinutes z now + k)) = Fin (of_int (getMinutes z now + k))"
    by (rule roundDouble_int)
  then have "roundDouble (of_int (getMinutes z now) + of_int k) =
               Fin (of_int (getMinutes z now) + of_int k)"
    by simp
  with assms(1) calculateExpiry_exact[of "of_int k" z now] show ?thesis by simp
qed

text \<open>In a zone whose offset never changes, the expiry is the time read plus the whole
  minutes.\<close>

lemma constant_zone: "UTC (\<lambda>t isUTC. c) (LocalTime (\<lambda>t isUTC. c) now + d) = now + d"
  by (simp add: UTC_def LocalTime_def)

lemma expiry_default:
  "calculateExpiry (\<lambda>t isUTC. c) now (Some (Fin 30)) = Some (TimeClip (now + 1800000))"
  using calculateExpiry_whole[of 30 "\<lambda>t isUTC. c" now] by (simp add: constant_zone msPerMinute_def)

lemma expiry_two_minutes:
  "calculateExpiry (\<lambda>t isUTC. c) now (Some (Fin 2)) = Some (TimeClip (now + 120000))"
  using calculateExpiry_whole[of 2 "\<lambda>t isUTC. c" now] by (simp add: constant_zone msPerMinute_def)

text \<open>What a successful save and a successful or failed Create tell about their
  arguments.\<close>

lemma saveNew_Inr:
  assumes "saveNew e db ou code ex = Inr d"
  shows "\<exists>c. code = Some c \<and>
           d = \<lparr> originalUrl = js_trim ou, shortCode = js_trim c, createdAt = nowCreated e,
                 expiresAt = dateValue ex, clicks = 0, clickHistory = [] \<rparr> \<and>
           originalUrlValid (js_trim ou) \<and> shortCodeValid (Some (js_trim c)) \<and>
           expiresAtValid (nowValidate e) ex \<and> (\<forall>x \<in> set db. shortCode x \<noteq> js_trim c)"
  using assms
  by (cases code) (auto simp: saveNew_def Let_def split: if_splits)

lemma createShortUrl_Inl:
  "createShortUrl e db req = (Inl err, db') \<Longrightarrow> db' = db"
  by (auto simp: createShortUrl_def Let_def split: option.splits if_splits sum.splits)

lemma createShortUrl_Inr:
  assumes "createShortUrl e db req = (Inr v, db')"
  shows "\<exists>ou code d. url req = Some ou \<and> ou \<noteq> [] \<and> isValidUrl e ou \<and>
           \<not> validityRejected (validity req) \<and>
           chooseCode e db (shortcode req) = Inr code \<and>
           saveNew e db ou code
             (calculateExpiry (localTZA e) (nowExpiry e) (Some (validityOr30 (validity req)))) = Inr d \<and>
           db' = db @ [d] \<and>
           v = \<lparr> cv_shortCode = shortCode d, cv_originalUrl = originalUrl d,
                 cv_expiry = expiresAt d \<rparr>"
  using assms
  by (auto simp: createShortUrl_def Let_def split: option.splits if_splits sum.splits)

text \<open>The loop stops at the first free candidate, which is among the first
  \<open>MAX_ATTEMPTS\<close> results of the generator.\<close>

declare generateLoop.simps [simp del]

lemma generateLoop_stop:
  "uniqueCodeFound \<or> \<not> attempts < MAX_ATTEMPTS \<Longrightarrow>
     generateLoop gen db code uniqueCodeFound attempts = (code, uniqueCodeFound, attempts)"
  by (subst generateLoop.simps) auto

lemma generateLoop_step:
  "\<not> uniqueCodeFound \<Longrightarrow> attempts < MAX_ATTEMPTS \<Longrightarrow>
     generateLoop gen db code uniqueCodeFound attempts =
       generateLoop gen db (Some (gen attempts)) (findOne db (gen attempts) = None) (attempts + 1)"
  by (subst generateLoop.simps) (auto simp: Let_def)

lemma generateLoop_found:
  "generateLoop gen db code found attempts = (code', True, n) \<Longrightarrow> \<not> found \<Longrightarrow>
     \<exists>i. attempts \<le> i \<and> i < MAX_ATTEMPTS \<and> code' = Some (gen i) \<and> findOne db (gen i) = None"
proof (induction gen db code found attempts rule: generateLoop.induct)
  case (1 gen db shortCodeToUse uniqueCodeFound attempts)
  show ?case
  proof (cases "attempts < MAX_ATTEMPTS")
    case False
    with "1.prems" show ?thesis by (simp add: generateLoop_stop)
  next
    case lt: True
    show ?thesis
    proof (cases "findOne db (gen attempts) = None")
      case True
      with "1.prems" lt have "code' = Some (gen attempts)"
        by (simp add: generateLoop_step generateLoop_stop)
      with True lt show ?thesis by auto
    next
      case False
      with "1.prems" lt
      have run: "generateLoop gen db (Some (gen attempts)) False (attempts + 1) = (code', True, n)"
        by (simp add: generateLoop_step)
      have "\<exists>i. attempts + 1 \<le> i \<and> i < MAX_ATTEMPTS \<and> code' = Some (gen i) \<and>
              findOne db (gen i) = None"
        using "1.IH"[of "gen attempts" False] "1.prems" lt False run by simp
      then obtain i where "attempts + 1 \<le> i" "i < MAX_ATTEMPTS" "code' = Some (gen i)"
        "findOne db (gen i) = None"
        by auto
      then show ?thesis by (intro exI[of _ i]) auto
    qed
  qed
qed

lemma chooseCode_generated:
  assumes "chooseCode e db custom = Inr code" and "\<not> str_truthy custom"
  shows "\<exists>i < MAX_ATTEMPTS. code = Some (nanoid e i) \<and> findOne db (nanoid e i) = None"
proof -
  obtain c f n where g: "generateLoop (nanoid e) db custom False 0 = (c, f, n)"
    by (cases "generateLoop (nanoid e) db custom False 0") auto
  with assms have "f" "code = c"
    by (auto simp: chooseCode_def split: if_splits)
  with g generateLoop_found[of "nanoid e" db custom False 0 c n] show ?thesis
    by auto
qed

text \<open>Trimming leaves a string of the generator's alphabet as it is.\<close>

lemma js_trim_id:
  assumes "\<forall>c \<in> set s. \<not> js_space c"
  shows "js_trim s = s"
proof -
  have d: "\<And>xs. \<forall>c \<in> set xs. \<not> js_space c \<Longrightarrow> dropWhile js_space xs = xs"
    by (case_tac xs) auto
  show ?thesis using assms by (simp add: js_trim_def d)
qed

lemma urlAlphabet_all:
  "list_all (\<lambda>c. (is_alnum c \<or> c = CHR ''_'' \<or> c = CHR ''-'') \<and> \<not> js_space c) urlAlphabet"
  by code_simp

lemma urlAlphabet_chars:
  "c \<in> set urlAlphabet \<Longrightarrow> (is_alnum c \<or> c = CHR ''_'' \<or> c = CHR ''-'') \<and> \<not> js_space c"
  using urlAlphabet_all by (simp add: list_all_iff)

lemma findOne_None: "findOne db code = None \<Longrightarrow> js_trim code \<notin> shortCode ` set db"
  by (auto simp: findOne_def find_None_iff)

subsection \<open>Evaluation of the sample requests\<close>

lemma expiry_fraction:
  "calculateExpiry (\<lambda>t isUTC. 19800000) 1000000 (Some (Fin (3 / 2))) = Some (Date 1060000)"
proof -
  have m: "getMinutes (\<lambda>t isUTC. 19800000) 1000000 = 46"
    by (simp add: getMinutes_def LocalTime_def MinFromTime_def msPerMinute_def)
  have "roundDouble (of_int 95 / 2 ^ 1) = Fin (of_int 95 / 2 ^ 1)"
    by (rule roundDouble_dyadic) simp_all
  then have r: "roundDouble (of_int (getMinutes (\<lambda>t isUTC. 19800000) 1000000) + 3 / 2) =
                  Fin (of_int (getMinutes (\<lambda>t isUTC. 19800000) 1000000) + 3 / 2)"
    by (simp add: m)
  have f: "\<lfloor>3 / 2 :: rat\<rfloor> = 1" by (rule floor_unique) simp_all
  from calculateExpiry_exact[OF _ r] show ?thesis
    by (simp add: f constant_zone msPerMinute_def TimeClip_def)
qed

lemmas eval_create = createShortUrl_def chooseCode_def saveNew_def
  originalUrlValid_def shortCodeValid_def urlPatternMatch_def schemeRest_def js_trim_def js_space_def
  line_terminator_def customCodeFormat_def is_alnum_def is_lower_def is_upper_def is_digit_def
  to_lower_def findOne_def TimeClip_def expiry_default expiry_two_minutes expiry_fraction
  sampleEnv_def sampleReq_def sampleDoc_def MAX_ATTEMPTS_def Let_def run_def ttlSweep_def
  generateLoop_step generateLoop_stop

lemma sample_create:
  "createShortUrl sampleEnv [] sampleReq =
     (Inr \<lparr> cv_shortCode = ''aB3xZ'', cv_originalUrl = ''https://example.com/a'',
            cv_expiry = Some 2800000 \<rparr>, [] @ [sampleDoc])"
  by (simp add: eval_create)

lemma sample_reachable: "run [Create sampleEnv sampleReq] = [sampleDoc]"
  by (simp add: eval_create)


subsection \<open>C1: the generated code\<close>

text \<open>
  C1 (amended). When a Create request without a custom code succeeds, and the generator
  keeps to its contract (five symbols of its alphabet at each call), the code returned
  has five characters, no document stored in the collection has that code, and the only
  change to the collection is the new document, appended, which carries the code. The
  code of a document that has been deleted can be issued again.
\<close>

theorem generated_code_fresh:
  assumes res: "createShortUrl e db req = (Inr v, db')"
    and nocustom: "\<not> str_truthy (shortcode req)"
    and gen: "\<forall>i < MAX_ATTEMPTS. nanoidResult 5 (nanoid e i)"
  shows "length (cv_shortCode v) = 5 \<and>
         cv_shortCode v \<notin> shortCode ` set db \<and>
         (\<exists>d. db' = db @ [d] \<and> shortCode d = cv_shortCode v)"
proof -
  from createShortUrl_Inr[OF res] obtain ou code d where
    ch: "chooseCode e db (shortcode req) = Inr code" and
    sv: "saveNew e db ou code
           (calculateExpiry (localTZA e) (nowExpiry e) (Some (validityOr30 (validity req)))) = Inr d" and
    db': "db' = db @ [d]" and
    v: "v = \<lparr> cv_shortCode = shortCode d, cv_originalUrl = originalUrl d, cv_expiry = expiresAt d \<rparr>"
    by blast
  from chooseCode_generated[OF ch nocustom] obtain i where
    i: "i < MAX_ATTEMPTS" and code: "code = Some (nanoid e i)" and
    free: "findOne db (nanoid e i) = None"
    by blast
  from gen i have out: "nanoidResult 5 (nanoid e i)" by blast
  then have chars: "\<forall>c \<in> set (nanoid e i). c \<in> set urlAlphabet" and len: "length (nanoid e i) = 5"
    by (simp_all add: nanoidResult_def list_all_iff)
  from chars have trim: "js_trim (nanoid e i) = nanoid e i"
    by (intro js_trim_id) (auto dest: urlAlphabet_chars)
  from saveNew_Inr[OF sv] code trim have sc: "shortCode d = nanoid e i"
    by auto
  have "cv_shortCode v = nanoid e i" using v sc by simp
  moreover have "nanoid e i \<notin> shortCode ` set db"
    using findOne_None[OF free] trim by simp
  ultimately show ?thesis using len db' sc by simp
qed

text \<open>The theorem at the generator whose first code collides.\<close>

lemma retry_create:
  "createShortUrl retryEnv [sampleDoc] sampleReq =
     (Inr \<lparr> cv_shortCode = ''Q_-7k'', cv_originalUrl = ''https://example.com/a'',
            cv_expiry = Some 2800000 \<rparr>,
      [sampleDoc] @ [sampleDoc \<lparr> shortCode := ''Q_-7k'' \<rparr>])"
  by (simp add: eval_create retryEnv_def)

lemma retry_gen: "\<forall>i < MAX_ATTEMPTS. nanoidResult 5 (nanoid retryEnv i)"
proof -
  have "nanoidResult 5 ''aB3xZ''" "nanoidResult 5 ''Q_-7k''" by code_simp+
  then show ?thesis by (simp add: retryEnv_def sampleEnv_def)
qed

theorem generated_code_fresh_witness:
  "createShortUrl retryEnv [sampleDoc] sampleReq =
     (Inr \<lparr> cv_shortCode = ''Q_-7k'', cv_originalUrl = ''https://example.com/a'',
            cv_expiry = Some 2800000 \<rparr>,
      [sampleDoc] @ [sampleDoc \<lparr> shortCode := ''Q_-7k'' \<rparr>]) \<and>
   \<not> str_truthy (shortcode sampleReq) \<and>
   length ''Q_-7k'' = 5 \<and>
   ''Q_-7k'' \<notin> shortCode ` set [sampleDoc]"
proof -
  have n: "\<not> str_truthy (shortcode sampleReq)" by (simp add: sampleReq_def)
  from generated_code_fresh[OF retry_create n retry_gen] retry_create n
  show ?thesis by simp
qed

text \<open>
  C1 as stated fails twice. The sample request is given the code \<^verbatim>\<open>aB3xZ\<close>; an hour
  later the document has expired and the index has deleted it, and the same request is
  given \<^verbatim>\<open>aB3xZ\<close> again, a code that was issued before. And a generator that returns
  \<^verbatim>\<open>ab_cd\<close>, five symbols of its alphabet, makes the sample request succeed with that
  code, which is not alphanumeric.
\<close>

theorem generated_code_reissued_counterexample:
  "createShortUrl sampleEnv [] sampleReq =
     (Inr \<lparr> cv_shortCode = ''aB3xZ'', cv_originalUrl = ''https://example.com/a'',
            cv_expiry = Some 2800000 \<rparr>, [sampleDoc]) \<and>
   step [sampleDoc] (Sweep 4000000) = [] \<and>
   createShortUrl laterEnv [] sampleReq =
     (Inr \<lparr> cv_shortCode = ''aB3xZ'', cv_originalUrl = ''https://example.com/a'',
            cv_expiry = Some 6400000 \<rparr>,
      [sampleDoc \<lparr> createdAt := 4600001, expiresAt := Some 6400000 \<rparr>]) \<and>
   createShortUrl underscoreEnv [] sampleReq =
     (Inr \<lparr> cv_shortCode = ''ab_cd'', cv_originalUrl = ''https://example.com/a'',
            cv_expiry = Some 2800000 \<rparr>, [sampleDoc \<lparr> shortCode := ''ab_cd'' \<rparr>]) \<and>
   nanoidResult 5 ''ab_cd'' \<and>
   \<not> list_all is_alnum ''ab_cd''"
proof -
  have "nanoidResult 5 ''ab_cd''" "\<not> list_all is_alnum ''ab_cd''" by code_simp+
  then show ?thesis
    by (simp add: eval_create laterEnv_def underscoreEnv_def)
qed

subsection \<open>The two parts of a redirection\<close>


lemma redirectLoad_Inr:
  "redirectLoad t db code = Inr d \<longleftrightarrow> findOne db code = Some d \<and> \<not> pastExpiry t d"
  by (auto simp: redirectLoad_def split: option.splits)

lemma redirectSave_Inl:
  "redirectSave t' ts db rq d = (Inl err, db') \<Longrightarrow> err = SaveFailed \<and> db' = db"
  by (auto simp: redirectSave_def Let_def split: if_splits)

lemma redirect_Inl:
  "redirectToOriginal t t' ts db rq = (Inl err, db') \<Longrightarrow> db' = db"
  by (auto simp: redirectToOriginal_def dest: redirectSave_Inl split: sum.splits)



subsection \<open>C2: the test of expiry\<close>




subsection \<open>Invariants of the reachable collections\<close>

lemma createShortUrl_cases:
  "snd (createShortUrl e db req) = db \<or>
   (\<exists>v d. createShortUrl e db req = (Inr v, db @ [d]))"
proof (cases "createShortUrl e db req")
  case (Pair r db')
  show ?thesis
  proof (cases r)
    case (Inl err)
    with Pair createShortUrl_Inl[of e db req err db'] show ?thesis by simp
  next
    case (Inr v)
    with Pair createShortUrl_Inr[of e db req v db'] show ?thesis by auto
  qed
qed




lemma run_snoc: "run (rs @ [r]) = step (run rs) r"
  by (simp add: run_def)


subsection \<open>The expiry of a created document\<close>





subsection \<open>C3: every created document expires\<close>







subsection \<open>C4: a custom code\<close>

lemma createShortUrl_custom:
  assumes "url req = Some ou" and "ou \<noteq> []" and "isValidUrl e ou"
    and "\<not> validityRejected (validity req)"
    and "shortcode req = Some code" and "code \<noteq> []"
  shows "findOne db code \<noteq> None \<Longrightarrow> createShortUrl e db req = (Inl CodeConflict, db)"
    and "findOne db code = None \<Longrightarrow> \<not> customCodeFormat code \<Longrightarrow>
           createShortUrl e db req = (Inl CodeFormatInvalid, db)"
  using assms by (auto simp: createShortUrl_def chooseCode_def)

text \<open>
  C4 (amended). When a custom code is supplied to a Create request that passes the
  checks of the URL and of the validity, the availability is checked before the format:
  a custom code for which the collection has a document is rejected with CodeConflict
  (409), whether it is well formed or not, and a custom code for which it has none and
  which does not match \<^verbatim>\<open>^[a-zA-Z0-9]{5,10}$\<close> is rejected with CodeFormatInvalid (400).
  The collection is unchanged in both cases.
\<close>

theorem custom_code_checks:
  assumes "url req = Some ou" and "ou \<noteq> []" and "isValidUrl e ou"
    and "\<not> validityRejected (validity req)"
    and "shortcode req = Some code" and "code \<noteq> []"
  shows "(findOne db code \<noteq> None \<longrightarrow> createShortUrl e db req = (Inl CodeConflict, db)) \<and>
         (findOne db code = None \<and> \<not> customCodeFormat code \<longrightarrow>
            createShortUrl e db req = (Inl CodeFormatInvalid, db)) \<and>
         create_status CodeConflict = 409 \<and> create_status CodeFormatInvalid = 400"
  using createShortUrl_custom[OF assms] by simp

text \<open>The theorem at a code that is too short and at a code that is taken.\<close>

theorem custom_code_checks_witness:
  "url shortCodeReq = Some ''https://example.com/a'' \<and>
   isValidUrl sampleEnv ''https://example.com/a'' \<and>
   \<not> validityRejected (validity shortCodeReq) \<and>
   shortcode shortCodeReq = Some ''ab'' \<and>
   findOne [sampleDoc] ''ab'' = None \<and> \<not> customCodeFormat ''ab'' \<and>
   createShortUrl sampleEnv [sampleDoc] shortCodeReq = (Inl CodeFormatInvalid, [sampleDoc]) \<and>
   shortcode takenCodeReq = Some ''aB3xZ'' \<and>
   findOne [sampleDoc] ''aB3xZ'' \<noteq> None \<and>
   createShortUrl sampleEnv [sampleDoc] takenCodeReq = (Inl CodeConflict, [sampleDoc])"
proof -
  have u: "url shortCodeReq = Some ''https://example.com/a''"
          "url takenCodeReq = Some ''https://example.com/a''"
    by (simp_all add: shortCodeReq_def takenCodeReq_def sampleReq_def)
  have p: "isValidUrl sampleEnv ''https://example.com/a''" by (simp add: sampleEnv_def)
  have v: "\<not> validityRejected (validity shortCodeReq)" "\<not> validityRejected (validity takenCodeReq)"
    by (simp_all add: shortCodeReq_def takenCodeReq_def sampleReq_def)
  have c: "shortcode shortCodeReq = Some ''ab''" "shortcode takenCodeReq = Some ''aB3xZ''"
    by (simp_all add: shortCodeReq_def takenCodeReq_def)
  have f: "findOne [sampleDoc] ''ab'' = None" "\<not> customCodeFormat ''ab''"
    "findOne [sampleDoc] ''aB3xZ'' \<noteq> None"
    by code_simp+
  from custom_code_checks[OF u(1) _ p v(1) c(1), of "[sampleDoc]"]
    custom_code_checks[OF u(2) _ p v(2) c(2), of "[sampleDoc]"] u p v c f
  show ?thesis by simp
qed

text \<open>
  C4 as stated fails: the generator can issue the code \<^verbatim>\<open>ab_cd\<close>, which does not match
  the format; a later request with that custom code is answered with CodeConflict, not
  with CodeFormatInvalid.
\<close>

theorem malformed_taken_code_counterexample:
  "run [Create underscoreEnv sampleReq] = [sampleDoc \<lparr> shortCode := ''ab_cd'' \<rparr>] \<and>
   shortcode underscoreReq = Some ''ab_cd'' \<and>
   \<not> customCodeFormat ''ab_cd'' \<and>
   createShortUrl sampleEnv [sampleDoc \<lparr> shortCode := ''ab_cd'' \<rparr>] underscoreReq =
     (Inl CodeConflict, [sampleDoc \<lparr> shortCode := ''ab_cd'' \<rparr>])"
proof -
  have "\<not> customCodeFormat ''ab_cd''" by code_simp
  then show ?thesis
    by (simp add: eval_create underscoreEnv_def underscoreReq_def)
qed

subsection \<open>The document that a request finds and writes\<close>

lemma find_split:
  "find P xs = Some d \<Longrightarrow> \<exists>pre post. xs = pre @ d # post \<and> P d \<and> (\<forall>x \<in> set pre. \<not> P x)"
proof (induction xs)
  case Nil
  then show ?case by simp
next
  case (Cons x xs)
  show ?case
  proof (cases "P x")
    case True
    with Cons.prems have "x = d" by simp
    with True show ?thesis by (intro exI[of _ "[]"] exI[of _ xs]) simp
  next
    case False
    with Cons obtain pre post where "xs = pre @ d # post" "P d" "\<forall>x \<in> set pre. \<not> P x"
      by auto
    with False show ?thesis by (intro exI[of _ "x # pre"] exI[of _ post]) simp
  qed
qed

lemma findOne_split:
  assumes "findOne db code = Some d"
  shows "\<exists>pre post. db = pre @ d # post \<and> shortCode d = js_trim code \<and>
           (\<forall>x \<in> set pre. shortCode x \<noteq> shortCode d)"
  using find_split[OF assms[unfolded findOne_def]] by auto

lemma saveEntry_split:
  "\<forall>x \<in> set pre. shortCode x \<noteq> c \<Longrightarrow> shortCode d = c \<Longrightarrow>
     saveEntry c f (pre @ d # post) = pre @ f d # post"
  by (induction pre) auto

lemma docValid_recordClick: "docValid ts (recordClick t' rq d) = docValid ts d"
  by (simp add: docValid_def recordClick_def)

lemma redirect_Inr:
  assumes "redirectToOriginal t t' ts db rq = (Inr target, db')"
  shows "\<exists>d. findOne db (rq_shortCode rq) = Some d \<and> \<not> pastExpiry t d \<and> docValid ts d \<and>
           target = originalUrl d"
  using assms
  by (auto simp: redirectToOriginal_def redirectLoad_def redirectSave_def Let_def
      docValid_def recordClick_def split: option.splits if_splits)

lemma redirect_success:
  assumes f: "findOne db (rq_shortCode rq) = Some d" and live: "\<not> pastExpiry t d"
    and valid: "docValid ts d"
  shows "\<exists>pre post. db = pre @ d # post \<and> (\<forall>x \<in> set pre. shortCode x \<noteq> shortCode d) \<and>
           redirectToOriginal t t' ts db rq =
             (Inr (originalUrl d), pre @ recordClick t' rq d # post)"
proof -
  from findOne_split[OF f] obtain pre post where
    s: "db = pre @ d # post" "\<forall>x \<in> set pre. shortCode x \<noteq> shortCode d"
    by blast
  let ?f = "\<lambda>x. x \<lparr> clicks := clicks (recordClick t' rq d),
                     clickHistory := clickHistory x @
                       [\<lparr> timestamp = t', source = clickSource rq, location = ip rq \<rparr>] \<rparr>"
  have same: "?f d = recordClick t' rq d"
    by (simp add: recordClick_def)
  have code: "shortCode (recordClick t' rq d) = shortCode d"
    by (simp add: recordClick_def)
  from s have "saveEntry (shortCode d) ?f db = pre @ ?f d # post"
    by (simp add: saveEntry_split)
  then have saved: "saveEntry (shortCode d) ?f db = pre @ recordClick t' rq d # post"
    by (simp only: same)
  have stored: "shortCode d \<in> shortCode ` set db" using s(1) by simp
  have "redirectToOriginal t t' ts db rq =
          (Inr (originalUrl d), saveEntry (shortCode d) ?f db)"
    using f live valid stored
    by (simp add: redirectToOriginal_def redirectLoad_def redirectSave_def Let_def
        docValid_recordClick code) (simp add: recordClick_def)
  with s saved show ?thesis by auto
qed

lemma redirect_refused:
  assumes "findOne db (rq_shortCode rq) = Some d" and "\<not> pastExpiry t d" and "\<not> docValid ts d"
  shows "redirectToOriginal t t' ts db rq = (Inl SaveFailed, db)"
  using assms
  by (simp add: redirectToOriginal_def redirectLoad_def redirectSave_def Let_def
      docValid_recordClick)


subsection \<open>C5: the outcomes of a redirection\<close>


text \<open>The theorem on the sample document: a code that was never issued, a visit after
  the expiry and a visit before it.\<close>

lemma sample_redirects:
  "findOne [sampleDoc] (rq_shortCode (sampleVisit \<lparr> rq_shortCode := ''zzzzz'' \<rparr>)) = None"
  "redirectToOriginal 1500000 1500001 1500002 [sampleDoc] sampleVisit =
     (Inr ''https://example.com/a'',
      [sampleDoc \<lparr> clicks := 1, clickHistory :=
         [\<lparr> timestamp = 1500001, source = ''curl/8.0'', location = ''203.0.113.9'' \<rparr>] \<rparr>])"
  "docValid 1500002 sampleDoc"
  by code_simp+



subsection \<open>C6: a validity that is not a positive number\<close>

lemma validityRejected_iff:
  "validityRejected v = (\<exists>j. v = Some j \<and> (\<forall>n. j = JNum n \<longrightarrow> \<not> num_gt_zero n))"
proof (cases v)
  case None
  then show ?thesis by simp
next
  case (Some j)
  then show ?thesis by (cases j) (simp_all add: num_le_zero_iff)
qed

lemma createShortUrl_rejected:
  assumes "validityRejected (validity req)"
  shows "createShortUrl e db req =
           (case url req of
              None \<Rightarrow> (Inl MissingUrl, db)
            | Some ou \<Rightarrow>
                if ou = [] then (Inl MissingUrl, db)
                else if \<not> isValidUrl e ou then (Inl InvalidUrl, db)
                else (Inl InvalidValidity, db))"
  using assms by (simp add: createShortUrl_def split: option.splits)

text \<open>
  C6 (amended). A Create request whose validity is present and is not a positive number
  (zero, a negative number, a value that is not a number) fails with status 400 and
  leaves the collection unchanged, whatever the generator of codes would return: with
  MissingUrl when its URL is absent or empty, with InvalidUrl when its URL does not
  parse, and with InvalidValidity when its URL is present and parses. The check of the
  URL comes first.
\<close>

theorem invalid_validity_rejected:
  assumes "validity req = Some j" and "\<forall>n. j = JNum n \<longrightarrow> \<not> num_gt_zero n"
  shows "(url req = None \<or> url req = Some [] \<longrightarrow>
            createShortUrl e db req = (Inl MissingUrl, db)) \<and>
         (\<forall>ou. url req = Some ou \<and> ou \<noteq> [] \<and> \<not> isValidUrl e ou \<longrightarrow>
            createShortUrl e db req = (Inl InvalidUrl, db)) \<and>
         (\<forall>ou. url req = Some ou \<and> ou \<noteq> [] \<and> isValidUrl e ou \<longrightarrow>
            createShortUrl e db req = (Inl InvalidValidity, db)) \<and>
         snd (createShortUrl e db req) = db \<and>
         (\<exists>err. fst (createShortUrl e db req) = Inl err \<and> create_status err = 400 \<and>
            err \<in> {MissingUrl, InvalidUrl, InvalidValidity}) \<and>
         createShortUrl (e \<lparr> nanoid := g \<rparr>) db req = createShortUrl e db req"
proof -
  from assms have r: "validityRejected (validity req)"
    by (auto simp: validityRejected_iff)
  show ?thesis
    unfolding createShortUrl_rejected[OF r]
    by (auto split: option.splits)
qed

text \<open>The theorem at the sample request with a validity of zero and with a validity
  that is a string, and at requests with a validity of zero and no URL, or a string that
  is not one.\<close>

theorem invalid_validity_rejected_witness:
  "validity zeroValidityReq = Some (JNum (Fin 0)) \<and> \<not> num_gt_zero (Fin 0) \<and>
   url zeroValidityReq = Some ''https://example.com/a'' \<and>
   isValidUrl sampleEnv ''https://example.com/a'' \<and>
   createShortUrl sampleEnv [sampleDoc] zeroValidityReq = (Inl InvalidValidity, [sampleDoc]) \<and>
   validity stringValidityReq = Some (JStr ''10'') \<and>
   url stringValidityReq = Some ''https://example.com/a'' \<and>
   createShortUrl sampleEnv [sampleDoc] stringValidityReq = (Inl InvalidValidity, [sampleDoc]) \<and>
   validity noUrlReq = Some (JNum (Fin 0)) \<and> url noUrlReq = None \<and>
   createShortUrl sampleEnv [sampleDoc] noUrlReq = (Inl MissingUrl, [sampleDoc]) \<and>
   validity badUrlReq = Some (JNum (Fin 0)) \<and> url badUrlReq = Some ''not-a-url'' \<and>
   \<not> isValidUrl sampleEnv ''not-a-url'' \<and>
   createShortUrl sampleEnv [sampleDoc] badUrlReq = (Inl InvalidUrl, [sampleDoc])"
proof -
  have z: "validity zeroValidityReq = Some (JNum (Fin 0))"
    and s: "validity stringValidityReq = Some (JStr ''10'')"
    and m: "validity noUrlReq = Some (JNum (Fin 0))"
    and b: "validity badUrlReq = Some (JNum (Fin 0))"
    and u: "url zeroValidityReq = Some ''https://example.com/a''"
           "url stringValidityReq = Some ''https://example.com/a''"
           "url noUrlReq = None" "url badUrlReq = Some ''not-a-url''"
    by (simp_all add: zeroValidityReq_def stringValidityReq_def noUrlReq_def badUrlReq_def
        sampleReq_def)
  have p: "isValidUrl sampleEnv ''https://example.com/a''" "\<not> isValidUrl sampleEnv ''not-a-url''"
    by (simp_all add: sampleEnv_def)
  have nz: "\<forall>n. JNum (Fin 0) = JNum n \<longrightarrow> \<not> num_gt_zero n" by simp
  have ns: "\<forall>n. JStr ''10'' = JNum n \<longrightarrow> \<not> num_gt_zero n" by simp
  from invalid_validity_rejected[OF z nz, of sampleEnv "[sampleDoc]"]
    invalid_validity_rejected[OF s ns, of sampleEnv "[sampleDoc]"]
    invalid_validity_rejected[OF m nz, of sampleEnv "[sampleDoc]"]
    invalid_validity_rejected[OF b nz, of sampleEnv "[sampleDoc]"] z s m b u p
  show ?thesis by simp
qed

text \<open>
  C6 as stated fails: a request with a validity of zero and no URL fails with MissingUrl,
  not with InvalidValidity.
\<close>

theorem invalid_validity_without_url_counterexample:
  "validity noUrlReq = Some (JNum (Fin 0)) \<and> url noUrlReq = None \<and>
   createShortUrl sampleEnv [] noUrlReq = (Inl MissingUrl, [])"
  by (simp add: createShortUrl_def noUrlReq_def zeroValidityReq_def sampleReq_def)

subsection \<open>C7: the counter and the history\<close>

lemma created_fresh:
  assumes "createShortUrl e db req = (Inr v, db')"
  shows "\<exists>d. db' = db @ [d] \<and> clicks d = 0 \<and> clickHistory d = [] \<and>
           shortCode d = cv_shortCode v \<and> shortCode d \<notin> shortCode ` set db"
proof -
  from createShortUrl_Inr[OF assms] obtain ou code d where
    sv: "saveNew e db ou code
           (calculateExpiry (localTZA e) (nowExpiry e) (Some (validityOr30 (validity req)))) = Inr d" and
    r: "db' = db @ [d]"
       "v = \<lparr> cv_shortCode = shortCode d, cv_originalUrl = originalUrl d, cv_expiry = expiresAt d \<rparr>"
    by blast
  from saveNew_Inr[OF sv] r show ?thesis by auto
qed

text \<open>The save sets the counter from the copy that was loaded, and extends the history
  that is stored.\<close>

lemma redirectSave_Inr:
  assumes "redirectSave t' ts db rq entry = (Inr target, db')"
  shows "\<exists>pre d post ev. db = pre @ d # post \<and> shortCode d = shortCode entry \<and>
           db' = pre @ d \<lparr> clicks := clicks entry + 1,
                           clickHistory := clickHistory d @ [ev] \<rparr> # post"
proof -
  let ?ev = "\<lparr> timestamp = t', source = clickSource rq, location = ip rq \<rparr>"
  let ?f = "\<lambda>d. d \<lparr> clicks := clicks (recordClick t' rq entry),
                     clickHistory := clickHistory d @ [?ev] \<rparr>"
  have code: "shortCode (recordClick t' rq entry) = shortCode entry"
    and n: "clicks (recordClick t' rq entry) = clicks entry + 1"
    by (simp_all add: recordClick_def)
  from assms have stored: "shortCode entry \<in> shortCode ` set db"
    and db': "db' = saveEntry (shortCode entry) ?f db"
    by (auto simp: redirectSave_def Let_def code split: if_splits)
  from stored have "find (\<lambda>d. shortCode d = shortCode entry) db \<noteq> None"
    by (auto simp: find_None_iff)
  then obtain d where "find (\<lambda>d. shortCode d = shortCode entry) db = Some d" by blast
  from find_split[OF this] obtain pre post where
    s: "db = pre @ d # post" "shortCode d = shortCode entry"
       "\<forall>x \<in> set pre. shortCode x \<noteq> shortCode entry"
    by blast
  from s db' have "db' = pre @ ?f d # post" by (simp add: saveEntry_split)
  with s n have "db = pre @ d # post \<and> shortCode d = shortCode entry \<and>
           db' = pre @ d \<lparr> clicks := clicks entry + 1,
                           clickHistory := clickHistory d @ [?ev] \<rparr> # post"
    by simp
  then show ?thesis by (intro exI)
qed

text \<open>While every redirection is served in one step, the counter of every document is
  the length of its history.\<close>

lemma sequential_clicks:
  "list_all unbroken rs \<Longrightarrow> \<forall>d \<in> set (run rs). clicks d = length (clickHistory d)"
proof (induction rs rule: rev_induct)
  case Nil
  show ?case by (simp add: run_def)
next
  case (snoc r rs)
  then have ih: "\<forall>d \<in> set (run rs). clicks d = length (clickHistory d)"
    and u: "unbroken r"
    by simp_all
  show ?case
  proof (cases r)
    case (Create e req)
    from createShortUrl_cases[of e "run rs" req] show ?thesis
    proof
      assume "snd (createShortUrl e (run rs) req) = run rs"
      with ih Create show ?thesis by (simp add: run_snoc)
    next
      assume "\<exists>v d. createShortUrl e (run rs) req = (Inr v, run rs @ [d])"
      then obtain v d where c: "createShortUrl e (run rs) req = (Inr v, run rs @ [d])" by blast
      from created_fresh[OF c] have "clicks d = length (clickHistory d)" by simp
      with ih c Create show ?thesis by (simp add: run_snoc)
    qed
  next
    case (GetStats now code)
    with ih show ?thesis by (simp add: run_snoc)
  next
    case (Redirect t t' ts rq)
    obtain res db' where r: "redirectToOriginal t t' ts (run rs) rq = (res, db')"
      by (cases "redirectToOriginal t t' ts (run rs) rq")
    show ?thesis
    proof (cases res)
      case (Inl err)
      with r redirect_Inl[of t t' ts "run rs" rq err db'] have "db' = run rs" by simp
      with ih r Redirect show ?thesis by (simp add: run_snoc)
    next
      case (Inr target)
      with r have r': "redirectToOriginal t t' ts (run rs) rq = (Inr target, db')" by simp
      from redirect_Inr[OF r'] obtain d where
        f: "findOne (run rs) (rq_shortCode rq) = Some d" and live: "\<not> pastExpiry t d"
        and valid: "docValid ts d"
        by blast
      from redirect_success[OF f live valid, of t'] r' obtain pre post where
        s: "run rs = pre @ d # post" "db' = pre @ recordClick t' rq d # post"
        by auto
      from ih s(1) have "clicks d = length (clickHistory d)" by simp
      then have "clicks (recordClick t' rq d) = length (clickHistory (recordClick t' rq d))"
        by (simp add: recordClick_def)
      with ih s r' Redirect show ?thesis by (auto simp: run_snoc)
    qed
  next
    case (RedirectSave t' ts rq entry)
    with u show ?thesis by simp
  next
    case ListAll
    with ih show ?thesis by (simp add: run_snoc)
  next
    case (Sweep now)
    with ih show ?thesis by (simp add: run_snoc ttlSweep_def)
  qed
qed

text \<open>
  C7. The handlers do not keep \<^verbatim>\<open>clicks\<close> equal to the length of \<^verbatim>\<open>clickHistory\<close>
  when two redirections of one code overlap. After the sample request, two visits load
  the sample document, with \<^verbatim>\<open>clicks\<close> 0, before either saves. The first save sets
  \<^verbatim>\<open>clicks\<close> to 1 and pushes an event; the second sets \<^verbatim>\<open>clicks\<close> to 1 again, from its
  own copy, and pushes a second event. The document is left with \<^verbatim>\<open>clicks\<close> 1 and a
  history of two events, and GetStats reports both. Both visits are redirected.
\<close>

theorem overlapping_redirects_lose_click:
  "run [Create sampleEnv sampleReq] = [sampleDoc] \<and>
   clicks sampleDoc = 0 \<and> clickHistory sampleDoc = [] \<and>
   redirectLoad 1500000 [sampleDoc] (rq_shortCode sampleVisit) = Inr sampleDoc \<and>
   redirectLoad 1500001 [sampleDoc] (rq_shortCode referredVisit) = Inr sampleDoc \<and>
   redirectSave 1500002 1500004 [sampleDoc] sampleVisit sampleDoc =
     (Inr ''https://example.com/a'',
      [sampleDoc \<lparr> clicks := 1, clickHistory :=
         [\<lparr> timestamp = 1500002, source = ''curl/8.0'', location = ''203.0.113.9'' \<rparr>] \<rparr>]) \<and>
   redirectSave 1500003 1500005
      [sampleDoc \<lparr> clicks := 1, clickHistory :=
         [\<lparr> timestamp = 1500002, source = ''curl/8.0'', location = ''203.0.113.9'' \<rparr>] \<rparr>]
      referredVisit sampleDoc =
     (Inr ''https://example.com/a'', [racedDoc]) \<and>
   run [Create sampleEnv sampleReq,
        RedirectSave 1500002 1500004 sampleVisit sampleDoc,
        RedirectSave 1500003 1500005 referredVisit sampleDoc] = [racedDoc] \<and>
   clicks racedDoc = 1 \<and> length (clickHistory racedDoc) = 2 \<and>
   clicks racedDoc \<noteq> length (clickHistory racedDoc) \<and>
   getShortUrlStats 1500006 [racedDoc] ''aB3xZ'' =
     Inr \<lparr> st_shortCode = ''aB3xZ'', st_originalUrl = ''https://example.com/a'',
           st_createdAt = 1000001, st_expiresAt = Some 2800000, st_totalClicks = 1,
           st_clickHistory = clickHistory racedDoc \<rparr>"
proof -
  have loads: "redirectLoad 1500000 [sampleDoc] (rq_shortCode sampleVisit) = Inr sampleDoc"
    "redirectLoad 1500001 [sampleDoc] (rq_shortCode referredVisit) = Inr sampleDoc"
    by code_simp+
  have s1: "redirectSave 1500002 1500004 [sampleDoc] sampleVisit sampleDoc =
     (Inr ''https://example.com/a'',
      [sampleDoc \<lparr> clicks := 1, clickHistory :=
         [\<lparr> timestamp = 1500002, source = ''curl/8.0'', location = ''203.0.113.9'' \<rparr>] \<rparr>])"
    by code_simp
  have s2: "redirectSave 1500003 1500005
      [sampleDoc \<lparr> clicks := 1, clickHistory :=
         [\<lparr> timestamp = 1500002, source = ''curl/8.0'', location = ''203.0.113.9'' \<rparr>] \<rparr>]
      referredVisit sampleDoc =
     (Inr ''https://example.com/a'', [racedDoc])"
    by code_simp
  have r: "run [Create sampleEnv sampleReq,
        RedirectSave 1500002 1500004 sampleVisit sampleDoc,
        RedirectSave 1500003 1500005 referredVisit sampleDoc] = [racedDoc]"
    using sample_create s1 s2 by (simp add: run_def)
  have c: "clicks sampleDoc = 0" "clickHistory sampleDoc = []"
    "clicks racedDoc = 1" "length (clickHistory racedDoc) = 2"
    by (simp_all add: sampleDoc_def racedDoc_def)
  have g: "getShortUrlStats 1500006 [racedDoc] ''aB3xZ'' =
     Inr \<lparr> st_shortCode = ''aB3xZ'', st_originalUrl = ''https://example.com/a'',
           st_createdAt = 1000001, st_expiresAt = Some 2800000, st_totalClicks = 1,
           st_clickHistory = clickHistory racedDoc \<rparr>"
    by code_simp
  from c have ne: "clicks racedDoc \<noteq> length (clickHistory racedDoc)" by simp
  show ?thesis
    by (intro conjI) (fact sample_reachable loads s1 s2 r c g ne)+
qed

subsection \<open>C8: the event of a click\<close>

lemma clickSource_cases:
  "(\<forall>r. referer rq = Some r \<and> r \<noteq> [] \<longrightarrow> clickSource rq = r) \<and>
   (\<forall>u. (referer rq = None \<or> referer rq = Some []) \<and> userAgent rq = Some u \<and> u \<noteq> [] \<longrightarrow>
      clickSource rq = u) \<and>
   ((referer rq = None \<or> referer rq = Some []) \<and>
    (userAgent rq = None \<or> userAgent rq = Some []) \<longrightarrow> clickSource rq = ''Direct/Unknown'')"
  by (auto simp: clickSource_def)

text \<open>
  C8 (amended). The event recorded by a successful Redirect is the last of the history
  of the document found. Its source is the referrer header if that is present and not
  empty, else the user-agent header if that is present and not empty, else the string
  \<^verbatim>\<open>Direct/Unknown\<close>; its location is \<^verbatim>\<open>req.ip\<close>, the address of the requester; its
  timestamp is the time read for the click.
\<close>

theorem click_event_fields:
  assumes "redirectToOriginal t t' ts db rq = (Inr target, db')"
  shows "\<exists>pre post d d' ev. db = pre @ d # post \<and> db' = pre @ d' # post \<and>
           findOne db (rq_shortCode rq) = Some d \<and>
           clickHistory d' = clickHistory d @ [ev] \<and>
           (\<forall>r. referer rq = Some r \<and> r \<noteq> [] \<longrightarrow> source ev = r) \<and>
           (\<forall>u. (referer rq = None \<or> referer rq = Some []) \<and> userAgent rq = Some u \<and> u \<noteq> [] \<longrightarrow>
              source ev = u) \<and>
           ((referer rq = None \<or> referer rq = Some []) \<and>
            (userAgent rq = None \<or> userAgent rq = Some []) \<longrightarrow> source ev = ''Direct/Unknown'') \<and>
           location ev = ip rq \<and> timestamp ev = t'"
proof -
  from redirect_Inr[OF assms] obtain d where
    f: "findOne db (rq_shortCode rq) = Some d" and live: "\<not> pastExpiry t d"
    and valid: "docValid ts d"
    by blast
  from redirect_success[OF f live valid, of t'] assms obtain pre post where
    s: "db = pre @ d # post" "db' = pre @ recordClick t' rq d # post"
    by auto
  define ev where "ev = \<lparr> timestamp = t', source = clickSource rq, location = ip rq \<rparr>"
  have h: "clickHistory (recordClick t' rq d) = clickHistory d @ [ev]"
    by (simp add: recordClick_def ev_def)
  have src: "source ev = clickSource rq" and loc: "location ev = ip rq" and ts: "timestamp ev = t'"
    by (simp_all add: ev_def)
  have "db = pre @ d # post \<and> db' = pre @ recordClick t' rq d # post \<and>
           findOne db (rq_shortCode rq) = Some d \<and>
           clickHistory (recordClick t' rq d) = clickHistory d @ [ev] \<and>
           (\<forall>r. referer rq = Some r \<and> r \<noteq> [] \<longrightarrow> source ev = r) \<and>
           (\<forall>u. (referer rq = None \<or> referer rq = Some []) \<and> userAgent rq = Some u \<and> u \<noteq> [] \<longrightarrow>
              source ev = u) \<and>
           ((referer rq = None \<or> referer rq = Some []) \<and>
            (userAgent rq = None \<or> userAgent rq = Some []) \<longrightarrow> source ev = ''Direct/Unknown'') \<and>
           location ev = ip rq \<and> timestamp ev = t'"
    using s f h loc ts clickSource_cases[of rq] unfolding src by (intro conjI) blast+
  then show ?thesis by (intro exI)
qed

text \<open>The theorem at a visit with a referrer and at the sample visit, which has none.\<close>

lemma sample_visits:
  "redirectToOriginal 1500000 1500001 1500002 [sampleDoc] referredVisit =
     (Inr ''https://example.com/a'',
      [sampleDoc \<lparr> clicks := 1, clickHistory :=
         [\<lparr> timestamp = 1500001, source = ''https://news.example/'',
            location = ''203.0.113.9'' \<rparr>] \<rparr>])"
  "referer referredVisit = Some ''https://news.example/''"
  "referer sampleVisit = None"
  "userAgent sampleVisit = Some ''curl/8.0''"
  "ip sampleVisit = ''203.0.113.9''"
  by code_simp+

theorem click_event_fields_witness:
  "redirectToOriginal 1500000 1500001 1500002 [sampleDoc] referredVisit =
     (Inr ''https://example.com/a'',
      [sampleDoc \<lparr> clicks := 1, clickHistory :=
         [\<lparr> timestamp = 1500001, source = ''https://news.example/'',
            location = ''203.0.113.9'' \<rparr>] \<rparr>]) \<and>
   referer referredVisit = Some ''https://news.example/'' \<and>
   redirectToOriginal 1500000 1500001 1500002 [sampleDoc] sampleVisit =
     (Inr ''https://example.com/a'',
      [sampleDoc \<lparr> clicks := 1, clickHistory :=
         [\<lparr> timestamp = 1500001, source = ''curl/8.0'', location = ''203.0.113.9'' \<rparr>] \<rparr>]) \<and>
   referer sampleVisit = None \<and> userAgent sampleVisit = Some ''curl/8.0'' \<and>
   ip sampleVisit = ''203.0.113.9''"
  using click_event_fields[OF sample_visits(1)] click_event_fields[OF sample_redirects(2)]
    sample_visits sample_redirects(2)
  by simp

text \<open>
  C8 as stated fails: with a referrer header that is present and empty, the source
  recorded is the user agent, not the referrer.
\<close>

theorem empty_referer_counterexample:
  "referer emptyRefererVisit = Some [] \<and> userAgent emptyRefererVisit = Some ''curl/8.0'' \<and>
   redirectToOriginal 1500000 1500001 1500002 [sampleDoc] emptyRefererVisit =
     (Inr ''https://example.com/a'',
      [sampleDoc \<lparr> clicks := 1, clickHistory :=
         [\<lparr> timestamp = 1500001, source = ''curl/8.0'', location = ''203.0.113.9'' \<rparr>] \<rparr>])"
  by code_simp

subsection \<open>C9: the list of all documents\<close>

lemma saveEntry_codes:
  "(\<And>d. shortCode (f d) = shortCode d) \<Longrightarrow> map shortCode (saveEntry c f db) = map shortCode db"
  by (induction db) auto

lemma redirectSave_codes:
  "map shortCode (snd (redirectSave t' ts db rq entry)) = map shortCode db"
  by (simp add: redirectSave_def Let_def saveEntry_codes)

lemma redirect_codes:
  "map shortCode (snd (redirectToOriginal t t' ts db rq)) = map shortCode db"
  by (simp add: redirectToOriginal_def redirectSave_codes split: sum.splits)

lemma reachable_distinct: "distinct (map shortCode (run rs))"
proof (induction rs rule: rev_induct)
  case Nil
  show ?case by (simp add: run_def)
next
  case (snoc r rs)
  show ?case
  proof (cases r)
    case (Create e req)
    from createShortUrl_cases[of e "run rs" req] show ?thesis
    proof
      assume "snd (createShortUrl e (run rs) req) = run rs"
      with snoc Create show ?thesis by (simp add: run_snoc)
    next
      assume "\<exists>v d. createShortUrl e (run rs) req = (Inr v, run rs @ [d])"
      then obtain v d where c: "createShortUrl e (run rs) req = (Inr v, run rs @ [d])" by blast
      from created_fresh[OF c] have "shortCode d \<notin> shortCode ` set (run rs)" by auto
      with snoc c Create show ?thesis by (simp add: run_snoc)
    qed
  next
    case (GetStats now code)
    with snoc show ?thesis by (simp add: run_snoc)
  next
    case (Redirect nowCheck nowClick nowSave rq)
    with snoc show ?thesis by (simp add: run_snoc redirect_codes)
  next
    case (RedirectSave nowClick nowSave rq entry)
    with snoc show ?thesis by (simp add: run_snoc redirectSave_codes)
  next
    case ListAll
    with snoc show ?thesis by (simp add: run_snoc)
  next
    case (Sweep now)
    with snoc show ?thesis by (simp add: run_snoc ttlSweep_def distinct_map_filter)
  qed
qed

lemma swept_code_gone:
  assumes dist: "distinct (map shortCode db)" and d: "d \<in> set db"
    and ex: "expiresAt d = Some ex" "ex \<le> now"
  shows "shortCode d \<notin> shortCode ` set (ttlSweep now db)"
proof
  assume "shortCode d \<in> shortCode ` set (ttlSweep now db)"
  then obtain d' where d': "d' \<in> set db" "shortCode d' = shortCode d"
    and kept: "case expiresAt d' of None \<Rightarrow> True | Some ex \<Rightarrow> now < ex"
    by (auto simp: ttlSweep_def)
  from dist have "inj_on shortCode (set db)" by (simp add: distinct_map)
  with d d' have "d' = d" by (auto dest: inj_onD)
  with kept ex show False by simp
qed

text \<open>
  C9. ListAll returns one summary for each document of the collection, in the order of
  the collection: the code, the URL, the two dates and the number of clicks of the
  document, and no history. A document that is past its expiry and not yet deleted is
  listed. In a collection reached through the handlers and the sweep, no code is listed
  twice, and after a sweep the code of a document that the sweep deleted is not listed.
\<close>

theorem list_all_summaries:
  "length (getAllShortUrls db) = length db \<and>
   (\<forall>i < length db.
      getAllShortUrls db ! i =
        \<lparr> sv_shortCode = shortCode (db ! i), sv_originalUrl = originalUrl (db ! i),
          sv_createdAt = createdAt (db ! i), sv_expiresAt = expiresAt (db ! i),
          sv_totalClicks = clicks (db ! i) \<rparr>) \<and>
   (\<forall>d \<in> set db. pastExpiry now d \<longrightarrow> summary d \<in> set (getAllShortUrls db)) \<and>
   distinct (map sv_shortCode (getAllShortUrls (run rs))) \<and>
   (\<forall>d \<in> set (run rs). \<forall>ex. expiresAt d = Some ex \<and> ex \<le> now \<longrightarrow>
      shortCode d \<notin> sv_shortCode ` set (getAllShortUrls (step (run rs) (Sweep now)))) \<and>
   (\<forall>d \<in> set (run rs). (expiresAt d = None \<or> (\<exists>ex. expiresAt d = Some ex \<and> now < ex)) \<longrightarrow>
      summary d \<in> set (getAllShortUrls (step (run rs) (Sweep now))))"
proof -
  have codes: "\<And>xs. map sv_shortCode (getAllShortUrls xs) = map shortCode xs"
    by (simp add: getAllShortUrls_def summary_def)
  have img: "\<And>xs. sv_shortCode ` set (getAllShortUrls xs) = shortCode ` set xs"
    using codes by (metis set_map)
  have a: "length (getAllShortUrls db) = length db"
    by (simp add: getAllShortUrls_def)
  have b: "\<forall>i < length db.
      getAllShortUrls db ! i =
        \<lparr> sv_shortCode = shortCode (db ! i), sv_originalUrl = originalUrl (db ! i),
          sv_createdAt = createdAt (db ! i), sv_expiresAt = expiresAt (db ! i),
          sv_totalClicks = clicks (db ! i) \<rparr>"
    by (simp add: getAllShortUrls_def summary_def)
  have c: "\<forall>d \<in> set db. pastExpiry now d \<longrightarrow> summary d \<in> set (getAllShortUrls db)"
    by (simp add: getAllShortUrls_def)
  have d: "distinct (map sv_shortCode (getAllShortUrls (run rs)))"
    by (simp add: codes reachable_distinct)
  have e: "\<forall>d \<in> set (run rs). \<forall>ex. expiresAt d = Some ex \<and> ex \<le> now \<longrightarrow>
      shortCode d \<notin> sv_shortCode ` set (getAllShortUrls (step (run rs) (Sweep now)))"
    using swept_code_gone[OF reachable_distinct[of rs]] by (simp add: img)
  have f: "\<forall>d \<in> set (run rs). (expiresAt d = None \<or> (\<exists>ex. expiresAt d = Some ex \<and> now < ex)) \<longrightarrow>
      summary d \<in> set (getAllShortUrls (step (run rs) (Sweep now)))"
    by (auto simp: getAllShortUrls_def ttlSweep_def)
  from a b c d e f show ?thesis by (intro conjI)
qed

text \<open>The theorem on a collection of two documents, one of them past its expiry, before
  and after the sweep.\<close>

lemma brief_create:
  "createShortUrl retryEnv [sampleDoc] twoMinuteReq =
     (Inr \<lparr> cv_shortCode = ''Q_-7k'', cv_originalUrl = ''https://example.com/a'',
            cv_expiry = Some 1120000 \<rparr>, [sampleDoc, briefDoc])"
  by (simp add: eval_create retryEnv_def twoMinuteReq_def briefDoc_def)

lemma two_docs:
  "run [Create sampleEnv sampleReq, Create retryEnv twoMinuteReq] = [sampleDoc, briefDoc]"
  "getAllShortUrls [sampleDoc, briefDoc] = [summary sampleDoc, summary briefDoc]"
  "pastExpiry 1200000 briefDoc"
  "getAllShortUrls (step [sampleDoc, briefDoc] (Sweep 1200000)) = [summary sampleDoc]"
  "sv_shortCode (summary sampleDoc) = ''aB3xZ''"
  "sv_shortCode (summary briefDoc) = ''Q_-7k''"
proof -
  show "run [Create sampleEnv sampleReq, Create retryEnv twoMinuteReq] = [sampleDoc, briefDoc]"
    using sample_create brief_create by (simp add: run_def)
qed code_simp+

theorem list_all_summaries_witness:
  "run [Create sampleEnv sampleReq, Create retryEnv twoMinuteReq] = [sampleDoc, briefDoc] \<and>
   getAllShortUrls [sampleDoc, briefDoc] = [summary sampleDoc, summary briefDoc] \<and>
   pastExpiry 1200000 briefDoc \<and>
   sv_shortCode (summary sampleDoc) = ''aB3xZ'' \<and> sv_shortCode (summary briefDoc) = ''Q_-7k'' \<and>
   getAllShortUrls (step [sampleDoc, briefDoc] (Sweep 1200000)) = [summary sampleDoc]"
  using list_all_summaries[of "[sampleDoc, briefDoc]" 1200000
      "[Create sampleEnv sampleReq, Create retryEnv twoMinuteReq]"] two_docs
  by simp

subsection \<open>C10: the two checks of the URL\<close>

lemma ci_prefix_take:
  "ci_prefix p s = Some r \<Longrightarrow> map to_lower (take (length p) s) = p \<and> s = take (length p) s @ r"
  by (induction p s rule: ci_prefix.induct) (auto split: if_splits)

lemma ci_prefix_Some:
  assumes "ci_prefix p s = Some r" and "length p = n"
  shows "map to_lower (take n s) = p"
  using ci_prefix_take[OF assms(1)] assms(2) by simp

lemma urlPatternMatch_scheme:
  assumes "urlPatternMatch s"
  shows "map to_lower (take 8 s) = ''https://'' \<or> map to_lower (take 7 s) = ''http://'' \<or>
         map to_lower (take 6 s) = ''ftp://''"
proof -
  from assms obtain r where "schemeRest s = Some r"
    by (auto simp: urlPatternMatch_def split: option.splits)
  then consider "ci_prefix ''https://'' s = Some r" | "ci_prefix ''http://'' s = Some r"
    | "ci_prefix ''ftp://'' s = Some r"
    by (auto simp: schemeRest_def split: option.splits)
  then show ?thesis
  proof cases
    case 1
    from ci_prefix_Some[OF 1, of 8] show ?thesis by simp
  next
    case 2
    from ci_prefix_Some[OF 2, of 7] show ?thesis by simp
  next
    case 3
    from ci_prefix_Some[OF 3, of 6] show ?thesis by simp
  qed
qed

lemma createShortUrl_unmatched:
  assumes u: "url req = Some ou" and nm: "\<not> urlPatternMatch (js_trim ou)"
  shows "\<exists>err. createShortUrl e db req = (Inl err, db)"
proof (cases "createShortUrl e db req")
  case (Pair r db')
  show ?thesis
  proof (cases r)
    case (Inl err)
    with Pair createShortUrl_Inl[of e db req err db'] show ?thesis by simp
  next
    case (Inr v)
    with Pair createShortUrl_Inr[of e db req v db'] obtain ou' code ex d where
      "url req = Some ou'" "saveNew e db ou' code ex = Inr d"
      by blast
    with u saveNew_Inr[of e db ou code ex d] nm show ?thesis
      by (auto simp: originalUrlValid_def)
  qed
qed

text \<open>
  C10 (amended). Create succeeds only for a URL that \<^verbatim>\<open>new URL\<close> accepts and whose value as the
  schema stores it, trimmed, matches the pattern of the schema; that value is the one
  returned. A string matches the pattern only if it starts with \<^verbatim>\<open>http://\<close>,
  \<^verbatim>\<open>https://\<close> or \<^verbatim>\<open>ftp://\<close>, in any case of the letters. A request whose URL does
  not match never succeeds and leaves the collection unchanged; when it passes the
  checks of the controller and a code is chosen, the failure is that of the validation
  at save time, sent with status 400.
\<close>

theorem create_needs_both_checks:
  "(createShortUrl e db req = (Inr v, db') \<longrightarrow>
      (\<exists>ou. url req = Some ou \<and> isValidUrl e ou \<and> cv_originalUrl v = js_trim ou \<and>
         urlPatternMatch (cv_originalUrl v))) \<and>
   (urlPatternMatch s \<longrightarrow>
      map to_lower (take 8 s) = ''https://'' \<or> map to_lower (take 7 s) = ''http://'' \<or>
      map to_lower (take 6 s) = ''ftp://'') \<and>
   (\<forall>ou. url req = Some ou \<and> \<not> urlPatternMatch (js_trim ou) \<longrightarrow>
      (\<exists>err. createShortUrl e db req = (Inl err, db))) \<and>
   (\<forall>ou code. url req = Some ou \<and> ou \<noteq> [] \<and> isValidUrl e ou \<and>
        \<not> urlPatternMatch (js_trim ou) \<and> \<not> validityRejected (validity req) \<and>
        chooseCode e db (shortcode req) = Inr code \<longrightarrow>
      createShortUrl e db req = (Inl ValidationFailed, db)) \<and>
   create_status ValidationFailed = 400"
proof (intro conjI impI allI)
  assume res: "createShortUrl e db req = (Inr v, db')"
  from createShortUrl_Inr[OF res] obtain ou code d where
    u: "url req = Some ou" "isValidUrl e ou" and
    sv: "saveNew e db ou code
           (calculateExpiry (localTZA e) (nowExpiry e) (Some (validityOr30 (validity req)))) = Inr d" and
    v: "v = \<lparr> cv_shortCode = shortCode d, cv_originalUrl = originalUrl d, cv_expiry = expiresAt d \<rparr>"
    by blast
  from saveNew_Inr[OF sv] v have "cv_originalUrl v = js_trim ou" "urlPatternMatch (js_trim ou)"
    by (auto simp: originalUrlValid_def)
  with u show "\<exists>ou. url req = Some ou \<and> isValidUrl e ou \<and> cv_originalUrl v = js_trim ou \<and>
         urlPatternMatch (cv_originalUrl v)"
    by simp
next
  assume "urlPatternMatch s"
  then show "map to_lower (take 8 s) = ''https://'' \<or> map to_lower (take 7 s) = ''http://'' \<or>
      map to_lower (take 6 s) = ''ftp://''"
    by (rule urlPatternMatch_scheme)
next
  fix ou
  assume "url req = Some ou \<and> \<not> urlPatternMatch (js_trim ou)"
  then show "\<exists>err. createShortUrl e db req = (Inl err, db)"
    using createShortUrl_unmatched by blast
next
  fix ou code
  assume "url req = Some ou \<and> ou \<noteq> [] \<and> isValidUrl e ou \<and>
        \<not> urlPatternMatch (js_trim ou) \<and> \<not> validityRejected (validity req) \<and>
        chooseCode e db (shortcode req) = Inr code"
  then show "createShortUrl e db req = (Inl ValidationFailed, db)"
    by (simp add: createShortUrl_def saveNew_def originalUrlValid_def Let_def)
next
  show "create_status ValidationFailed = 400" by simp
qed

text \<open>The theorem at the sample request and at the request with a \<^verbatim>\<open>mailto\<close> URL.\<close>

lemma mailto_facts:
  "url mailtoReq = Some ''mailto:someone@example.com''"
  "isValidUrl sampleEnv ''mailto:someone@example.com''"
  "\<not> urlPatternMatch (js_trim ''mailto:someone@example.com'')"
  "\<not> validityRejected (validity mailtoReq)"
  "chooseCode sampleEnv [] (shortcode mailtoReq) = Inr (Some ''aB3xZ'')"
  by code_simp+

theorem create_needs_both_checks_witness:
  "url mailtoReq = Some ''mailto:someone@example.com'' \<and>
   isValidUrl sampleEnv ''mailto:someone@example.com'' \<and>
   \<not> urlPatternMatch (js_trim ''mailto:someone@example.com'') \<and>
   \<not> validityRejected (validity mailtoReq) \<and>
   chooseCode sampleEnv [] (shortcode mailtoReq) = Inr (Some ''aB3xZ'') \<and>
   createShortUrl sampleEnv [] mailtoReq = (Inl ValidationFailed, []) \<and>
   createShortUrl sampleEnv [] sampleReq =
     (Inr \<lparr> cv_shortCode = ''aB3xZ'', cv_originalUrl = ''https://example.com/a'',
            cv_expiry = Some 2800000 \<rparr>, [] @ [sampleDoc]) \<and>
   urlPatternMatch ''https://example.com/a''"
proof -
  have m: "urlPatternMatch ''https://example.com/a''" by code_simp
  from create_needs_both_checks[of sampleEnv "[]" mailtoReq]
    create_needs_both_checks[of sampleEnv "[]" sampleReq _ _ "''https://example.com/a''"]
    mailto_facts sample_create m
  show ?thesis by simp
qed

text \<open>
  C10 as stated fails: a URL with a space before it is accepted by \<^verbatim>\<open>new URL\<close> and
  does not match the pattern of the schema, and Create succeeds, because the schema
  trims the value before it validates it.
\<close>

theorem untrimmed_url_counterexample:
  "url spacedReq = Some '' https://example.com/a'' \<and>
   isValidUrl spacedEnv '' https://example.com/a'' \<and>
   \<not> urlPatternMatch '' https://example.com/a'' \<and>
   createShortUrl spacedEnv [] spacedReq =
     (Inr \<lparr> cv_shortCode = ''aB3xZ'', cv_originalUrl = ''https://example.com/a'',
            cv_expiry = Some 2800000 \<rparr>, [sampleDoc])"
proof -
  have a: "url spacedReq = Some '' https://example.com/a''"
    "isValidUrl spacedEnv '' https://example.com/a''"
    "\<not> urlPatternMatch '' https://example.com/a''"
    by code_simp+
  have b: "createShortUrl spacedEnv [] spacedReq =
     (Inr \<lparr> cv_shortCode = ''aB3xZ'', cv_originalUrl = ''https://example.com/a'',
            cv_expiry = Some 2800000 \<rparr>, [sampleDoc])"
    by (simp add: eval_create spacedEnv_def spacedReq_def)
  from a b show ?thesis by (intro conjI)
qed

end
